theory Spec2Isabelle
  imports Complex_Main
begin

section \<open>Finite-difference solver for the Kolmogorov forward equation\<close>

text \<open>
  The notebook \<^verbatim>\<open>lec4_kolmogorov_forward_equation_np.ipynb\<close> builds a uniform grid
  with \<^verbatim>\<open>np.linspace\<close>, evaluates the Fokker--Planck right-hand side with
  \<^verbatim>\<open>np.gradient\<close> (\<^verbatim>\<open>fpk_operator\<close>) and marches in time with explicit Euler
  (\<^verbatim>\<open>euler\<close>, \<^verbatim>\<open>solve_fpk\<close>).

  Numbers: the notebook computes in float64. The program is embedded twice. The first
  embedding computes in \<^typ>\<open>real\<close>: it is the exact-arithmetic reading of the code and
  carries the statements that relate outputs of the program to one another (the operator's
  formula, the Euler recurrence, the frame and determinism of the solver): there both
  sides are computed by the same expressions. The
  second embedding computes in float64 (rounding to nearest, overflow to infinity, NaN,
  Python's \<^verbatim>\<open>OverflowError\<close>) and carries the statements about values and failures
  that exact arithmetic cannot express. One-dimensional arrays are lists, the history
  array of shape (T, N) is a list of rows. Exceptions are values of \<open>error + 'a\<close>.
\<close>

subsection \<open>Errors\<close>

text \<open>
  The notebook defines no exception class. The only failures are the ones numpy and
  Python raise: \<^verbatim>\<open>ValueError\<close> (a negative sample count or shape, an array too short
  for \<^verbatim>\<open>np.gradient\<close>, operands that cannot be broadcast together),
  \<^verbatim>\<open>IndexError\<close> (reading \<^verbatim>\<open>xs[1]\<close> of a grid with fewer than two points) and
  \<^verbatim>\<open>OverflowError\<close> (Python's \<^verbatim>\<open>b ** 2\<close> on a float whose square overflows).
\<close>

datatype error = ValueError | IndexError | OverflowError

definition and_then :: "error + 'a \<Rightarrow> ('a \<Rightarrow> error + 'b) \<Rightarrow> error + 'b" where
  "and_then r f = (case r of Inl e \<Rightarrow> Inl e | Inr v \<Rightarrow> f v)"

subsection \<open>numpy: elementwise arithmetic on one-dimensional arrays\<close>

text \<open>
  A binary operator on two arrays of shapes (n,) and (m,) broadcasts: the shapes must be
  equal, or one of them is 1 and that single element is repeated; otherwise numpy raises
  \<^verbatim>\<open>ValueError: operands could not be broadcast together\<close>.
\<close>

definition broadcast2 :: "('a \<Rightarrow> 'a \<Rightarrow> 'a) \<Rightarrow> 'a list \<Rightarrow> 'a list \<Rightarrow> error + 'a list" where
  "broadcast2 f u v =
     (if length u = length v then Inr (map2 f u v)
      else if length u = 1 then Inr (map (f (u ! 0)) v)
      else if length v = 1 then Inr (map (\<lambda>x. f x (v ! 0)) u)
      else Inl ValueError)"

definition vadd :: "real list \<Rightarrow> real list \<Rightarrow> error + real list" where
  "vadd = broadcast2 (+)"

definition vmul :: "real list \<Rightarrow> real list \<Rightarrow> error + real list" where
  "vmul = broadcast2 (*)"

text \<open>scalar \<^verbatim>\<open>*\<close> array, array \<^verbatim>\<open>*\<close> scalar, unary minus, \<^verbatim>\<open>** 2\<close>: never fail.\<close>

definition smul :: "real \<Rightarrow> real list \<Rightarrow> real list" where
  "smul c v = map (\<lambda>x. c * x) v"

definition muls :: "real list \<Rightarrow> real \<Rightarrow> real list" where
  "muls v c = map (\<lambda>x. x * c) v"

definition vneg :: "real list \<Rightarrow> real list" where
  "vneg v = map uminus v"

definition vsquare :: "real list \<Rightarrow> real list" where
  "vsquare v = map (\<lambda>x. x ^ 2) v"

subsection \<open>numpy: \<^verbatim>\<open>linspace\<close> and \<^verbatim>\<open>gradient\<close>\<close>

text \<open>
  \<^verbatim>\<open>np.linspace(start, stop, num)\<close> with the default \<^verbatim>\<open>endpoint=True\<close>, following
  numpy's \<^verbatim>\<open>function_base.linspace\<close>: a negative \<^verbatim>\<open>num\<close> raises; otherwise
  \<^verbatim>\<open>y = arange(0, num)\<close> is scaled by \<^verbatim>\<open>step = delta / div\<close> where
  \<^verbatim>\<open>div = num - 1\<close> (by \<^verbatim>\<open>y / div * delta\<close> when the step is zero, by
  \<^verbatim>\<open>delta\<close> when \<^verbatim>\<open>div\<close> is not positive), shifted by \<^verbatim>\<open>start\<close>, and for
  \<^verbatim>\<open>num > 1\<close> the last entry is overwritten with \<^verbatim>\<open>stop\<close>.
\<close>

definition linspace :: "real \<Rightarrow> real \<Rightarrow> int \<Rightarrow> error + real list" where
  "linspace start stop num =
     (if num < 0 then Inl ValueError
      else
        let dv = num - 1;
            delta = stop - start;
            y0 = map real [0..<nat num];
            y1 = (if dv > 0 then
                    (let step = delta / real_of_int dv in
                     if step = 0 then map (\<lambda>v. v / real_of_int dv * delta) y0
                     else map (\<lambda>v. v * step) y0)
                  else map (\<lambda>v. v * delta) y0);
            y2 = map (\<lambda>v. v + start) y1
        in Inr (if num > 1 then y2[nat num - 1 := stop] else y2))"

text \<open>
  \<^verbatim>\<open>np.gradient(f, dx)\<close> for a one-dimensional \<^verbatim>\<open>f\<close>, a scalar spacing and the
  default \<^verbatim>\<open>edge_order=1\<close>: fewer than two elements raise \<^verbatim>\<open>ValueError\<close>; otherwise
  \<^verbatim>\<open>out[1:-1] = (f[2:] - f[:-2]) / (2. * dx)\<close>,
  \<^verbatim>\<open>out[0] = (f[1] - f[0]) / dx\<close> and \<^verbatim>\<open>out[-1] = (f[-1] - f[-2]) / dx\<close>.
\<close>

definition gradient :: "real list \<Rightarrow> real \<Rightarrow> error + real list" where
  "gradient f h =
     (if length f < 2 then Inl ValueError
      else
        let n = length f;
            interior = map2 (\<lambda>u v. (u - v) / (2 * h)) (drop 2 f) (take (n - 2) f);
            first = (f ! 1 - f ! 0) / h;
            final = (f ! (n - 1) - f ! (n - 2)) / h
        in Inr ([first] @ interior @ [final]))"

subsection \<open>The notebook's globals\<close>

text \<open>
  \<^verbatim>\<open>a, b = -2., 1.\<close>, \<^verbatim>\<open>dt = 2e-5\<close>, \<^verbatim>\<open>T = 10000\<close>, \<^verbatim>\<open>N = 500\<close>,
  \<^verbatim>\<open>xs = np.linspace(-2, 6, N)\<close>, \<^verbatim>\<open>dx = xs[1] - xs[0]\<close> are module-level names
  that the functions read when they are called. They are the fields of a record that
  every function takes as its first argument.
\<close>

record globals =
  gl_a :: real
  gl_b :: real
  gl_dt :: real
  gl_T :: int
  gl_N :: int
  gl_xs :: "real list"
  gl_dx :: real

text \<open>
  The grid cell, with the end points and the number of points as parameters:
  \<^verbatim>\<open>xs = np.linspace(x_min, x_max, N); dx = xs[1] - xs[0]\<close>.
\<close>

definition grid :: "real \<Rightarrow> real \<Rightarrow> int \<Rightarrow> error + (real list \<times> real)" where
  "grid x_min x_max n =
     and_then (linspace x_min x_max n)
       (\<lambda>pts. if length pts < 2 then Inl IndexError else Inr (pts, pts ! 1 - pts ! 0))"

definition notebook_globals :: "error + globals" where
  "notebook_globals =
     and_then (grid (-2) 6 500)
       (\<lambda>(pts, h). Inr \<lparr>gl_a = -2, gl_b = 1, gl_dt = 2 / 100000, gl_T = 10000, gl_N = 500,
                         gl_xs = pts, gl_dx = h\<rparr>)"

definition drift :: "globals \<Rightarrow> real list \<Rightarrow> real list" where
  "drift g x = smul (gl_a g) x"

definition dispersion :: "globals \<Rightarrow> real list \<Rightarrow> real list" where
  "dispersion g x = smul (gl_b g) x"

subsection \<open>The operator, the Euler step and the solver\<close>

text \<open>
  \<^verbatim>\<open>fpk_operator(ps)\<close>, statement by statement. Every array-array operation goes
  through numpy's broadcasting and can raise; the first failure ends the call.
\<close>

definition fpk_operator :: "globals \<Rightarrow> real list \<Rightarrow> error + real list" where
  "fpk_operator g ps =
     (let derivative_drift = gl_a g;
          gamma = vsquare (dispersion g (gl_xs g));
          derivative_gamma = smul (2 * gl_b g ^ 2) (gl_xs g);
          second_derivative_gamma = 2 * gl_b g ^ 2
      in
      and_then (gradient ps (gl_dx g)) (\<lambda>derivative_p.
      and_then (and_then (gradient ps (gl_dx g)) (\<lambda>q. gradient q (gl_dx g)))
        (\<lambda>second_derivative_p.
      and_then (and_then (vmul (drift g (gl_xs g)) derivative_p)
                  (vadd (smul derivative_drift ps))) (\<lambda>s.
      let part1 = vneg s in
      and_then (and_then (vmul (smul 2 derivative_gamma) derivative_p)
                  (vadd (smul second_derivative_gamma ps))) (\<lambda>u.
      and_then (and_then (vmul gamma second_derivative_p) (vadd u)) (\<lambda>w.
      vadd part1 (smul (1 / 2) w)))))))"

text \<open>\<^verbatim>\<open>euler(ps)\<close>: \<^verbatim>\<open>return ps + fpk_operator(ps) * dt\<close>.\<close>

definition euler :: "globals \<Rightarrow> real list \<Rightarrow> error + real list" where
  "euler g ps = and_then (fpk_operator g ps) (\<lambda>l. vadd ps (muls l (gl_dt g)))"

text \<open>
  \<^verbatim>\<open>pdfs[k, :] = ps\<close>: the row \<open>k\<close> of the history is overwritten. numpy broadcasts the
  right-hand side to the row's shape: its length is the row's, or 1; otherwise
  \<^verbatim>\<open>ValueError\<close>. A row index out of range is an \<^verbatim>\<open>IndexError\<close>.
\<close>

definition set_row :: "'a list list \<Rightarrow> nat \<Rightarrow> 'a list \<Rightarrow> error + 'a list list" where
  "set_row m k v =
     (if length m \<le> k then Inl IndexError
      else
        let n = length (m ! k) in
        if length v = n then Inr (m[k := v])
        else if length v = 1 then Inr (m[k := replicate n (v ! 0)])
        else Inl ValueError)"

text \<open>
  The body of \<^verbatim>\<open>for k in range(T)\<close>, run over the list of the remaining values of
  \<open>k\<close>; the loop's state is the working density \<open>ps\<close> and the history \<open>pdfs\<close>.
\<close>

fun solve_loop :: "globals \<Rightarrow> nat list \<Rightarrow> real list \<times> real list list
                     \<Rightarrow> error + (real list \<times> real list list)" where
  "solve_loop g [] (ps, pdfs) = Inr (ps, pdfs)"
| "solve_loop g (k # ks) (ps, pdfs) =
     (case euler g ps of
        Inl e \<Rightarrow> Inl e
      | Inr ps' \<Rightarrow>
          (case set_row pdfs k ps' of
             Inl e \<Rightarrow> Inl e
           | Inr pdfs' \<Rightarrow> solve_loop g ks (ps', pdfs')))"

text \<open>
  \<^verbatim>\<open>solve_fpk(p0)\<close> on values. \<^verbatim>\<open>np.zeros((T, N))\<close> raises \<^verbatim>\<open>ValueError\<close> for a
  negative dimension; \<^verbatim>\<open>p0.copy()\<close> has the contents of \<open>p0\<close>.
\<close>

definition solve_fpk :: "globals \<Rightarrow> real list \<Rightarrow> error + real list list" where
  "solve_fpk g p0 =
     (if gl_T g < 0 \<or> gl_N g < 0 then Inl ValueError
      else
        let pdfs = replicate (nat (gl_T g)) (replicate (nat (gl_N g)) 0);
            ps = p0
        in and_then (solve_loop g [0..<nat (gl_T g)] (ps, pdfs)) (\<lambda>(ps', pdfs'). Inr pdfs'))"

subsection \<open>The solver on a store of arrays\<close>

text \<open>
  numpy arrays are mutable objects and \<^verbatim>\<open>solve_fpk\<close> receives a reference. The store
  holds the one-dimensional arrays and the two-dimensional arrays, each addressed by its
  index; allocation appends. The state of numpy's global random generator (seeded in
  the first cell, consumed by \<^verbatim>\<open>simulate_true_trajectory\<close>) is part of the world as well.
\<close>

record world =
  vecs :: "real list list"
  mats :: "real list list list"
  rng :: nat

definition new_vec :: "world \<Rightarrow> real list \<Rightarrow> world \<times> nat" where
  "new_vec w v = (w\<lparr>vecs := vecs w @ [v]\<rparr>, length (vecs w))"

definition new_mat :: "world \<Rightarrow> real list list \<Rightarrow> world \<times> nat" where
  "new_mat w m = (w\<lparr>mats := mats w @ [m]\<rparr>, length (mats w))"

text \<open>
  \<^verbatim>\<open>ps = euler(ps)\<close>: numpy's arithmetic reads its operands and returns a fresh array, so
  the call allocates its result and the name \<open>ps\<close> is rebound to it. The only in-place
  write of the solver is \<^verbatim>\<open>pdfs[k, :] = ps\<close>.
\<close>

definition euler_st :: "globals \<Rightarrow> world \<Rightarrow> nat \<Rightarrow> error + (world \<times> nat)" where
  "euler_st g w ps = and_then (euler g (vecs w ! ps)) (\<lambda>v. Inr (new_vec w v))"

definition set_row_st :: "world \<Rightarrow> nat \<Rightarrow> nat \<Rightarrow> nat \<Rightarrow> error + world" where
  "set_row_st w pdfs k ps =
     and_then (set_row (mats w ! pdfs) k (vecs w ! ps))
       (\<lambda>m. Inr (w\<lparr>mats := (mats w)[pdfs := m]\<rparr>))"

fun solve_loop_st :: "globals \<Rightarrow> nat \<Rightarrow> nat list \<Rightarrow> world \<times> nat \<Rightarrow> error + (world \<times> nat)" where
  "solve_loop_st g pdfs [] (w, ps) = Inr (w, ps)"
| "solve_loop_st g pdfs (k # ks) (w, ps) =
     (case euler_st g w ps of
        Inl e \<Rightarrow> Inl e
      | Inr (w1, ps') \<Rightarrow>
          (case set_row_st w1 pdfs k ps' of
             Inl e \<Rightarrow> Inl e
           | Inr w2 \<Rightarrow> solve_loop_st g pdfs ks (w2, ps')))"

definition solve_fpk_st :: "globals \<Rightarrow> world \<Rightarrow> nat \<Rightarrow> error + (world \<times> nat)" where
  "solve_fpk_st g w p0 =
     (if gl_T g < 0 \<or> gl_N g < 0 then Inl ValueError
      else
        let (w1, pdfs) = new_mat w (replicate (nat (gl_T g)) (replicate (nat (gl_N g)) 0));
            (w2, ps) = new_vec w1 (vecs w1 ! p0)
        in and_then (solve_loop_st g pdfs [0..<nat (gl_T g)] (w2, ps))
             (\<lambda>(w3, ps'). Inr (w3, pdfs)))"

text \<open>What the caller gets to see of a run: the error, or the contents of the returned array.\<close>

definition history_of :: "error + (world \<times> nat) \<Rightarrow> error + real list list" where
  "history_of r = (case r of Inl e \<Rightarrow> Inl e | Inr (w, pdfs) \<Rightarrow> Inr (mats w ! pdfs))"

subsection \<open>The operator and the Euler sequence as the specification words them\<close>

text \<open>
  The gradient scheme: a one-sided difference at the two boundary points, a central
  difference at the interior points.
\<close>

definition diff_at :: "real list \<Rightarrow> real \<Rightarrow> nat \<Rightarrow> real" where
  "diff_at p h i =
     (if i = 0 then (p ! 1 - p ! 0) / h
      else if i = length p - 1 then (p ! i - p ! (i - 1)) / h
      else (p ! (i + 1) - p ! (i - 1)) / (2 * h))"

definition diff :: "real list \<Rightarrow> real \<Rightarrow> real list" where
  "diff p h = map (diff_at p h) [0..<length p]"

text \<open>
  The coefficients at a point: \<open>drift(x) = a x\<close> and \<open>\<gamma>(x) = dispersion(x)\<^sup>2 = (b x)\<^sup>2\<close>,
  with the derivatives the operator uses for them.
\<close>

definition drift_at :: "globals \<Rightarrow> real \<Rightarrow> real" where
  "drift_at g x = gl_a g * x"

definition gamma_at :: "globals \<Rightarrow> real \<Rightarrow> real" where
  "gamma_at g x = (gl_b g * x) ^ 2"

definition drift_deriv_at :: "globals \<Rightarrow> real \<Rightarrow> real" where
  "drift_deriv_at g x = gl_a g"

definition gamma_deriv_at :: "globals \<Rightarrow> real \<Rightarrow> real" where
  "gamma_deriv_at g x = 2 * gl_b g ^ 2 * x"

definition gamma_deriv2_at :: "globals \<Rightarrow> real \<Rightarrow> real" where
  "gamma_deriv2_at g x = 2 * gl_b g ^ 2"

definition L_at :: "globals \<Rightarrow> real list \<Rightarrow> nat \<Rightarrow> real" where
  "L_at g p i =
     (let x = gl_xs g ! i;
          p' = diff p (gl_dx g);
          p'' = diff (diff p (gl_dx g)) (gl_dx g)
      in - (drift_deriv_at g x * p ! i + drift_at g x * p' ! i)
         + 1 / 2 * (gamma_deriv2_at g x * p ! i + 2 * gamma_deriv_at g x * p' ! i
                    + gamma_at g x * p'' ! i))"

definition L :: "globals \<Rightarrow> real list \<Rightarrow> real list" where
  "L g p = map (L_at g p) [0..<length p]"

text \<open>The Euler sequence \<open>p\<^sub>0 = p0\<close>, \<open>p\<^sub>k = p\<^sub>k\<^sub>-\<^sub>1 + dt \<cdot> L[p\<^sub>k\<^sub>-\<^sub>1]\<close>.\<close>

fun euler_seq :: "globals \<Rightarrow> real list \<Rightarrow> nat \<Rightarrow> real list" where
  "euler_seq g p0 0 = p0"
| "euler_seq g p0 (Suc k) =
     (let p = euler_seq g p0 k in map2 (\<lambda>u l. u + gl_dt g * l) p (L g p))"

subsection \<open>A three-point instance\<close>

text \<open>
  The grid of \<^verbatim>\<open>np.linspace(0, 2, 3)\<close> with \<open>a = -2\<close>, \<open>b = 1\<close>, \<open>dt = 1/10\<close> and two
  time steps: small enough to evaluate by hand.
\<close>

definition small_globals :: globals where
  "small_globals = \<lparr>gl_a = -2, gl_b = 1, gl_dt = 1 / 10, gl_T = 2, gl_N = 3,
                     gl_xs = [0, 1, 2], gl_dx = 1\<rparr>"

subsection \<open>float64 arithmetic\<close>

text \<open>
  A float64 value is a finite number, an infinity or NaN. A finite value is kept as the
  real number it denotes; \<open>-0.0\<close> and \<open>+0.0\<close> are one value (they compare equal in the
  program) and NaN payloads are not told apart. Every operation computes the exact real
  result and rounds it.
\<close>

datatype f64 = Fin real | PInf | NInf | NaN

text \<open>
  Rounding to the nearest float64, ties to the even significand (IEEE 754
  \<^verbatim>\<open>roundTiesToEven\<close>, the mode numpy and Python run in): the unit in the last place of
  \<open>x\<close> is \<open>2\<^sup>e\<^sup>-\<^sup>5\<^sup>2\<close> for the binary exponent \<open>e\<close> of \<open>x\<close>, and \<open>2\<^sup>-\<^sup>1\<^sup>0\<^sup>7\<^sup>4\<close> in
  the subnormal range; \<open>x\<close> is rounded to a multiple of it; a result of magnitude
  \<open>2\<^sup>1\<^sup>0\<^sup>2\<^sup>4\<close> or more is an overflow and becomes an infinity.
\<close>

definition round_even :: "real \<Rightarrow> int" where
  "round_even r =
     (let n = \<lfloor>r\<rfloor>; d = r - of_int n
      in if d < 1 / 2 then n else if 1 / 2 < d then n + 1 else if even n then n else n + 1)"

definition pow2 :: "int \<Rightarrow> real" where
  "pow2 k = (if 0 \<le> k then 2 ^ nat k else 1 / 2 ^ nat (- k))"

definition bexp :: "real \<Rightarrow> int" where
  "bexp x = \<lfloor>log 2 \<bar>x\<bar>\<rfloor>"

definition rnd :: "real \<Rightarrow> f64" where
  "rnd x =
     (if x = 0 then Fin 0
      else
        let q = pow2 (max (- 1074) (bexp x - 52));
            y = of_int (round_even (x / q)) * q
        in if pow2 1024 \<le> \<bar>y\<bar> then (if 0 < x then PInf else NInf) else Fin y)"


text \<open>
  Negation, addition, subtraction, multiplication and division with the IEEE 754
  treatment of infinities and NaN: \<open>inf - inf\<close>, \<open>0 \<cdot> inf\<close>, \<open>0 / 0\<close> and
  \<open>inf / inf\<close> are NaN, a non-zero number divided by zero is an infinity, NaN
  propagates. numpy raises for none of them (it warns at most).
\<close>

fun fneg :: "f64 \<Rightarrow> f64" where
  "fneg (Fin x) = Fin (- x)"
| "fneg PInf = NInf"
| "fneg NInf = PInf"
| "fneg NaN = NaN"

fun is_neg :: "f64 \<Rightarrow> bool" where
  "is_neg (Fin x) = (x < 0)"
| "is_neg NInf = True"
| "is_neg PInf = False"
| "is_neg NaN = False"

definition inf_of :: "bool \<Rightarrow> f64" where
  "inf_of neg = (if neg then NInf else PInf)"

fun fadd :: "f64 \<Rightarrow> f64 \<Rightarrow> f64" where
  "fadd (Fin x) (Fin y) = rnd (x + y)"
| "fadd NaN b = NaN"
| "fadd a NaN = NaN"
| "fadd PInf NInf = NaN"
| "fadd NInf PInf = NaN"
| "fadd PInf b = PInf"
| "fadd NInf b = NInf"
| "fadd a PInf = PInf"
| "fadd a NInf = NInf"

definition fsub :: "f64 \<Rightarrow> f64 \<Rightarrow> f64" where
  "fsub a b = fadd a (fneg b)"

fun fmul :: "f64 \<Rightarrow> f64 \<Rightarrow> f64" where
  "fmul (Fin x) (Fin y) = rnd (x * y)"
| "fmul NaN b = NaN"
| "fmul a NaN = NaN"
| "fmul (Fin x) b = (if x = 0 then NaN else inf_of (is_neg (Fin x) \<noteq> is_neg b))"
| "fmul a (Fin y) = (if y = 0 then NaN else inf_of (is_neg a \<noteq> is_neg (Fin y)))"
| "fmul a b = inf_of (is_neg a \<noteq> is_neg b)"

fun fdiv :: "f64 \<Rightarrow> f64 \<Rightarrow> f64" where
  "fdiv (Fin x) (Fin y) =
     (if y = 0 then (if x = 0 then NaN else inf_of (x < 0)) else rnd (x / y))"
| "fdiv NaN b = NaN"
| "fdiv a NaN = NaN"
| "fdiv (Fin x) b = Fin 0"
| "fdiv a (Fin y) = inf_of (is_neg a \<noteq> (y < 0))"
| "fdiv a b = NaN"

text \<open>Finiteness.\<close>

fun is_fin :: "f64 \<Rightarrow> bool" where
  "is_fin (Fin x) = True"
| "is_fin a = False"

text \<open>
  \<^verbatim>\<open>b ** 2\<close> for a Python float \<open>b\<close> (the notebook's \<open>a\<close> and \<open>b\<close> are Python floats,
  not numpy scalars): CPython's \<^verbatim>\<open>float_pow\<close> raises \<^verbatim>\<open>OverflowError\<close> when the
  result of a finite operand overflows; it returns \<open>inf\<close> for an infinite operand and NaN
  for NaN. The square is taken as correctly rounded.
\<close>

fun py_pow2 :: "f64 \<Rightarrow> error + f64" where
  "py_pow2 (Fin x) = (case rnd (x * x) of Fin y \<Rightarrow> Inr (Fin y) | _ \<Rightarrow> Inl OverflowError)"
| "py_pow2 NaN = Inr NaN"
| "py_pow2 a = Inr PInf"

subsection \<open>The program in float64\<close>

text \<open>
  The numpy routines and the notebook's functions once more, computing in float64: the
  same statements as above with every arithmetic operation replaced by its float64
  counterpart. \<^verbatim>\<open>x ** 2\<close> on an array is numpy's elementwise square and does not
  raise; the Python-level \<^verbatim>\<open>b ** 2\<close> is evaluated (twice) before \<^verbatim>\<open>np.gradient\<close> is
  called, so its \<^verbatim>\<open>OverflowError\<close> comes first.
\<close>

definition linspace_f64 :: "f64 \<Rightarrow> f64 \<Rightarrow> int \<Rightarrow> error + f64 list" where
  "linspace_f64 start stop num =
     (if num < 0 then Inl ValueError
      else
        let dv = num - 1;
            delta = fsub stop start;
            y0 = map (\<lambda>i. rnd (real i)) [0..<nat num];
            y1 = (if dv > 0 then
                    (let step = fdiv delta (rnd (of_int dv)) in
                     if step = Fin 0 then map (\<lambda>v. fmul (fdiv v (rnd (of_int dv))) delta) y0
                     else map (\<lambda>v. fmul v step) y0)
                  else map (\<lambda>v. fmul v delta) y0);
            y2 = map (\<lambda>v. fadd v start) y1
        in Inr (if num > 1 then y2[nat num - 1 := stop] else y2))"

definition gradient_f64 :: "f64 list \<Rightarrow> f64 \<Rightarrow> error + f64 list" where
  "gradient_f64 f h =
     (if length f < 2 then Inl ValueError
      else
        let n = length f;
            interior = map2 (\<lambda>u v. fdiv (fsub u v) (fmul (Fin 2) h)) (drop 2 f) (take (n - 2) f);
            first = fdiv (fsub (f ! 1) (f ! 0)) h;
            final = fdiv (fsub (f ! (n - 1)) (f ! (n - 2))) h
        in Inr ([first] @ interior @ [final]))"

record globals_f64 =
  fl_a :: f64
  fl_b :: f64
  fl_dt :: f64
  fl_T :: int
  fl_N :: int
  fl_xs :: "f64 list"
  fl_dx :: f64

definition grid_f64 :: "f64 \<Rightarrow> f64 \<Rightarrow> int \<Rightarrow> error + (f64 list \<times> f64)" where
  "grid_f64 x_min x_max n =
     and_then (linspace_f64 x_min x_max n)
       (\<lambda>pts. if length pts < 2 then Inl IndexError else Inr (pts, fsub (pts ! 1) (pts ! 0)))"

definition drift_f64 :: "globals_f64 \<Rightarrow> f64 list \<Rightarrow> f64 list" where
  "drift_f64 g x = map (fmul (fl_a g)) x"

definition dispersion_f64 :: "globals_f64 \<Rightarrow> f64 list \<Rightarrow> f64 list" where
  "dispersion_f64 g x = map (fmul (fl_b g)) x"

definition fpk_operator_f64 :: "globals_f64 \<Rightarrow> f64 list \<Rightarrow> error + f64 list" where
  "fpk_operator_f64 g ps =
     (let derivative_drift = fl_a g;
          gamma = map (\<lambda>x. fmul x x) (dispersion_f64 g (fl_xs g))
      in
      and_then (py_pow2 (fl_b g)) (\<lambda>b2.
      let derivative_gamma = map (fmul (fmul (Fin 2) b2)) (fl_xs g) in
      and_then (py_pow2 (fl_b g)) (\<lambda>b2'.
      let second_derivative_gamma = fmul (Fin 2) b2' in
      and_then (gradient_f64 ps (fl_dx g)) (\<lambda>derivative_p.
      and_then (and_then (gradient_f64 ps (fl_dx g)) (\<lambda>q. gradient_f64 q (fl_dx g)))
        (\<lambda>second_derivative_p.
      and_then (and_then (broadcast2 fmul (drift_f64 g (fl_xs g)) derivative_p)
                  (broadcast2 fadd (map (fmul derivative_drift) ps))) (\<lambda>s.
      let part1 = map fneg s in
      and_then (and_then (broadcast2 fmul (map (fmul (Fin 2)) derivative_gamma) derivative_p)
                  (broadcast2 fadd (map (fmul second_derivative_gamma) ps))) (\<lambda>u.
      and_then (and_then (broadcast2 fmul gamma second_derivative_p) (broadcast2 fadd u))
        (\<lambda>w.
      broadcast2 fadd part1 (map (fmul (Fin (1 / 2))) w)))))))))"

definition euler_f64 :: "globals_f64 \<Rightarrow> f64 list \<Rightarrow> error + f64 list" where
  "euler_f64 g ps =
     and_then (fpk_operator_f64 g ps)
       (\<lambda>l. broadcast2 fadd ps (map (\<lambda>x. fmul x (fl_dt g)) l))"

fun solve_loop_f64 :: "globals_f64 \<Rightarrow> nat list \<Rightarrow> f64 list \<times> f64 list list
                         \<Rightarrow> error + (f64 list \<times> f64 list list)" where
  "solve_loop_f64 g [] (ps, pdfs) = Inr (ps, pdfs)"
| "solve_loop_f64 g (k # ks) (ps, pdfs) =
     (case euler_f64 g ps of
        Inl e \<Rightarrow> Inl e
      | Inr ps' \<Rightarrow>
          (case set_row pdfs k ps' of
             Inl e \<Rightarrow> Inl e
           | Inr pdfs' \<Rightarrow> solve_loop_f64 g ks (ps', pdfs')))"

definition solve_fpk_f64 :: "globals_f64 \<Rightarrow> f64 list \<Rightarrow> error + f64 list list" where
  "solve_fpk_f64 g p0 =
     (if fl_T g < 0 \<or> fl_N g < 0 then Inl ValueError
      else
        let pdfs = replicate (nat (fl_T g)) (replicate (nat (fl_N g)) (Fin 0));
            ps = p0
        in and_then (solve_loop_f64 g [0..<nat (fl_T g)] (ps, pdfs))
             (\<lambda>(ps', pdfs'). Inr pdfs'))"

text \<open>
  The conditions under which the operator's coefficient arithmetic stays finite and its
  divisions are by something other than zero or NaN.
\<close>

definition coefficients_finite :: "globals_f64 \<Rightarrow> bool" where
  "coefficients_finite g =
     (case py_pow2 (fl_b g) of
        Inl e \<Rightarrow> False
      | Inr b2 \<Rightarrow>
          is_fin (fl_a g)
          \<and> list_all is_fin (drift_f64 g (fl_xs g))
          \<and> is_fin (fmul (Fin 2) b2)
          \<and> list_all is_fin (map (fmul (Fin 2)) (map (fmul (fmul (Fin 2) b2)) (fl_xs g)))
          \<and> list_all is_fin (map (\<lambda>x. fmul x x) (dispersion_f64 g (fl_xs g))))"

definition spacing_usable :: "globals_f64 \<Rightarrow> bool" where
  "spacing_usable g =
     (fl_dx g \<noteq> Fin 0 \<and> fl_dx g \<noteq> NaN
      \<and> fmul (Fin 2) (fl_dx g) \<noteq> Fin 0 \<and> fmul (Fin 2) (fl_dx g) \<noteq> NaN)"

text \<open>A float64 number whose square is beyond the float64 range.\<close>

definition huge :: real where
  "huge = 2 ^ 600"

text \<open>The largest power of two among the float64 numbers.\<close>

definition big :: real where
  "big = 2 ^ 1023"

text \<open>A float64 number whose square is a float64 number and whose doubled square is not.\<close>

definition large :: real where
  "large = 3 * 2 ^ 510"


text \<open>
  The three-point instance in float64 (step size \<open>1/8\<close>).
\<close>

definition small_globals_f64 :: globals_f64 where
  "small_globals_f64 = \<lparr>fl_a = Fin (- 2), fl_b = Fin 1, fl_dt = Fin (1 / 8), fl_T = 2, fl_N = 3,
                         fl_xs = [Fin 0, Fin 1, Fin 2], fl_dx = Fin 1\<rparr>"

subsection \<open>Grid\<close>

lemma linspace_ok:
  assumes "1 < n"
  shows "linspace lo hi n =
           Inr ((map (\<lambda>i. real i * ((hi - lo) / real_of_int (n - 1)) + lo) [0..<nat n])
                  [nat n - 1 := hi])"
  using assms by (auto simp add: linspace_def Let_def comp_def)

lemma linspace_nth:
  assumes "1 < n" "i < nat n"
  shows "(map (\<lambda>i. real i * ((hi - lo) / real_of_int (n - 1)) + lo) [0..<nat n])
            [nat n - 1 := hi] ! i = lo + real i * ((hi - lo) / real_of_int (n - 1))"
proof (cases "i = nat n - 1")
  case True
  have "real i = real_of_int (n - 1)" using True assms by simp
  then have "real i * ((hi - lo) / real_of_int (n - 1)) = hi - lo"
    using assms by simp
  then show ?thesis using True assms by simp
next
  case False
  then show ?thesis using assms by simp
qed

lemma grid_ok:
  assumes "2 \<le> n"
  shows "grid lo hi n =
           Inr ((map (\<lambda>i. real i * ((hi - lo) / real_of_int (n - 1)) + lo) [0..<nat n])
                  [nat n - 1 := hi],
                (hi - lo) / real_of_int (n - 1))"
proof -
  let ?pts = "(map (\<lambda>i. real i * ((hi - lo) / real_of_int (n - 1)) + lo) [0..<nat n])
                  [nat n - 1 := hi]"
  have n1: "1 < n" using assms by simp
  have len: "length ?pts = nat n" by simp
  have p0: "?pts ! 0 = lo + real 0 * ((hi - lo) / real_of_int (n - 1))"
    using linspace_nth [OF n1, of 0 hi lo] assms by simp
  have p1: "?pts ! 1 = lo + real 1 * ((hi - lo) / real_of_int (n - 1))"
    using linspace_nth [OF n1, of 1 hi lo] assms by simp
  have "?pts ! 1 - ?pts ! 0 = (hi - lo) / real_of_int (n - 1)"
    unfolding p0 p1 by simp
  then show ?thesis
    using assms len unfolding grid_def linspace_ok [OF n1] and_then_def by simp
qed

lemma grid_fails:
  "grid lo hi n = (if n < 0 then Inl ValueError else if n < 2 then Inl IndexError
     else Inr ((map (\<lambda>i. real i * ((hi - lo) / real_of_int (n - 1)) + lo) [0..<nat n])
                  [nat n - 1 := hi],
                (hi - lo) / real_of_int (n - 1)))"
proof -
  consider "n < 0" | "n = 0" | "n = 1" | "2 \<le> n" by linarith
  then show ?thesis
  proof cases
    case 1 then show ?thesis by (simp add: grid_def linspace_def and_then_def)
  next
    case 2 then show ?thesis by (simp add: grid_def linspace_def and_then_def)
  next
    case 3 then show ?thesis by (simp add: grid_def linspace_def and_then_def)
  next
    case 4 then show ?thesis using grid_ok [OF 4] by simp
  qed
qed


text \<open>
  Claim C6, as amended. The grid cell validates nothing and has no domain error of its
  own: it fails exactly when \<open>N < 2\<close>, with numpy's \<^verbatim>\<open>ValueError\<close> for a negative
  \<open>N\<close> and with \<^verbatim>\<open>IndexError\<close> (from reading \<^verbatim>\<open>xs[1]\<close>) for \<open>N\<close> of 0 or 1,
  whatever the end points are. The claim as stated (failure exactly when
  \<open>x_min \<ge> x_max\<close> or \<open>N < 3\<close>) is refuted by \<open>N = 2\<close> and by \<open>x_min = x_max\<close>, for
  which a grid is returned.
\<close>

theorem grid_failure:
  "(isl (grid x_min x_max n) \<longleftrightarrow> n < 2)
   \<and> (grid x_min x_max n = Inl ValueError \<longleftrightarrow> n < 0)
   \<and> (grid x_min x_max n = Inl IndexError \<longleftrightarrow> 0 \<le> n \<and> n < 2)"
  unfolding grid_fails by auto

theorem grid_failure_counterexample:
  "(2::int) < 3 \<and> grid 0 1 2 = Inr ([0, 1], 1) \<and> (1::real) \<ge> 1 \<and> grid 1 1 3 = Inr ([1, 1, 1], 0)"
  unfolding grid_fails by (simp add: upt_rec numeral_nat)

subsection \<open>The gradient scheme and the operator\<close>

lemma and_then_Inr [simp]: "and_then (Inr v) f = f v"
  by (simp add: and_then_def)

lemma and_then_Inl [simp]: "and_then (Inl e) f = Inl e"
  by (simp add: and_then_def)

lemma length_diff [simp]: "length (diff p h) = length p"
  by (simp add: diff_def)

lemma nth_diff [simp]: "i < length p \<Longrightarrow> diff p h ! i = diff_at p h i"
  by (simp add: diff_def)

lemma gradient_short: "length f < 2 \<Longrightarrow> gradient f h = Inl ValueError"
  by (simp add: gradient_def)

lemma gradient_diff:
  assumes "2 \<le> length f"
  shows "gradient f h = Inr (diff f h)"
proof -
  define n where "n = length f"
  define out where "out = [(f ! 1 - f ! 0) / h]
      @ map2 (\<lambda>u v. (u - v) / (2 * h)) (drop 2 f) (take (n - 2) f)
      @ [(f ! (n - 1) - f ! (n - 2)) / h]"
  have n2: "2 \<le> n" using assms by (simp add: n_def)
  have len: "length out = n" using n2 by (simp add: out_def n_def)
  have "out ! i = diff_at f h i" if i: "i < n" for i
  proof -
    consider "i = 0" | "0 < i" "i < n - 1" | "i = n - 1" "0 < i" using i by arith
    then show ?thesis
    proof cases
      case 1
      then show ?thesis by (simp add: out_def diff_at_def)
    next
      case 2
      then obtain j where j: "i = Suc j" by (cases i) auto
      have jn: "j < n - 2" using 2 j by simp
      have "out ! i = (map2 (\<lambda>u v. (u - v) / (2 * h)) (drop 2 f) (take (n - 2) f)) ! j"
        using jn j by (simp add: out_def nth_append n_def)
      also have "\<dots> = (f ! (2 + j) - f ! j) / (2 * h)"
        using jn by (simp add: n_def)
      finally show ?thesis using 2 j by (simp add: diff_at_def n_def)
    next
      case 3
      define front where "front = [(f ! 1 - f ! 0) / h]
        @ map2 (\<lambda>u v. (u - v) / (2 * h)) (drop 2 f) (take (n - 2) f)"
      have "length front = n - 1" using n2 by (simp add: front_def n_def)
      moreover have "out = front @ [(f ! (n - 1) - f ! (n - 2)) / h]"
        by (simp add: out_def front_def)
      ultimately have "out ! i = (f ! (n - 1) - f ! (n - 2)) / h"
        using 3 by (simp add: nth_append)
      moreover have "n - 2 = n - 1 - 1" by simp
      ultimately show ?thesis using 3 by (simp add: diff_at_def n_def)
    qed
  qed
  then have "out = diff f h"
    using len by (intro nth_equalityI) (simp_all add: n_def)
  then show ?thesis
    using assms by (simp add: gradient_def Let_def out_def n_def)
qed

lemma broadcast2_same:
  "length u = length v \<Longrightarrow> broadcast2 f u v = Inr (map2 f u v)"
  by (simp add: broadcast2_def)

lemma vadd_same: "length u = length v \<Longrightarrow> vadd u v = Inr (map2 (+) u v)"
  by (simp add: vadd_def broadcast2_same)

lemma vmul_same: "length u = length v \<Longrightarrow> vmul u v = Inr (map2 (*) u v)"
  by (simp add: vmul_def broadcast2_same)

lemma length_L [simp]: "length (L g p) = length p"
  by (simp add: L_def)

lemma fpk_operator_L:
  assumes "2 \<le> length ps" "length (gl_xs g) = length ps"
  shows "fpk_operator g ps = Inr (L g ps)"
proof -
  define p' where "p' = diff ps (gl_dx g)"
  define p'' where "p'' = diff p' (gl_dx g)"
  have lens: "length p' = length ps" "length p'' = length ps"
    by (simp_all add: p'_def p''_def)
  have g1: "gradient ps (gl_dx g) = Inr p'"
    using gradient_diff [OF assms(1)] by (simp add: p'_def)
  have g2: "gradient p' (gl_dx g) = Inr p''"
    using gradient_diff [of p'] assms(1) lens by (simp add: p''_def)
  have "fpk_operator g ps =
     Inr (map2 (+)
            (vneg (map2 (+) (smul (gl_a g) ps) (map2 (*) (drift g (gl_xs g)) p')))
            (smul (1 / 2)
               (map2 (+)
                  (map2 (+) (smul (2 * gl_b g ^ 2) ps)
                     (map2 (*) (smul 2 (smul (2 * gl_b g ^ 2) (gl_xs g))) p'))
                  (map2 (*) (vsquare (dispersion g (gl_xs g))) p''))))"
    using assms lens
    by (simp add: fpk_operator_def Let_def g1 g2 vadd_same vmul_same smul_def vneg_def
        vsquare_def drift_def dispersion_def)
  also have "\<dots> = Inr (L g ps)"
    using assms lens
    by (auto intro!: nth_equalityI
        simp: L_def L_at_def Let_def smul_def vneg_def vsquare_def drift_def dispersion_def
          p'_def [symmetric] p''_def [symmetric] drift_at_def gamma_at_def drift_deriv_at_def
          gamma_deriv_at_def gamma_deriv2_at_def algebra_simps)
  finally show ?thesis .
qed





lemma broadcast2_mismatch:
  "length u \<noteq> length v \<Longrightarrow> length u \<noteq> 1 \<Longrightarrow> length v \<noteq> 1
     \<Longrightarrow> broadcast2 f u v = Inl ValueError"
  by (simp add: broadcast2_def)

subsection \<open>The Euler step and the solver\<close>

lemma euler_ok:
  assumes "2 \<le> length ps" "length (gl_xs g) = length ps"
  shows "euler g ps = Inr (map2 (\<lambda>u l. u + gl_dt g * l) ps (L g ps))"
proof -
  have "map2 (+) ps (muls (L g ps) (gl_dt g)) = map2 (\<lambda>u l. u + gl_dt g * l) ps (L g ps)"
    by (auto intro!: nth_equalityI simp: muls_def mult.commute)
  then show ?thesis
    using assms by (simp add: euler_def fpk_operator_L vadd_same muls_def)
qed

lemma length_euler_seq [simp]: "length (euler_seq g p0 k) = length p0"
  by (induction k) (simp_all add: Let_def)

lemma euler_step:
  assumes "2 \<le> length p0" "length (gl_xs g) = length p0"
  shows "euler g (euler_seq g p0 k) = Inr (euler_seq g p0 (Suc k))"
  using assms euler_ok [of "euler_seq g p0 k" g] by (simp add: Let_def)

lemma set_row_ok:
  "k < length m \<Longrightarrow> length v = length (m ! k) \<Longrightarrow> set_row m k v = Inr (m[k := v])"
  by (simp add: set_row_def)

lemma solve_loop_append:
  "solve_loop g (ks @ ks') st =
     (case solve_loop g ks st of Inl e \<Rightarrow> Inl e | Inr st' \<Rightarrow> solve_loop g ks' st')"
proof (induction ks arbitrary: st)
  case Nil
  then show ?case by (cases st) simp
next
  case (Cons k ks)
  then show ?case by (cases st) (simp split: sum.splits)
qed

lemma solve_loop_run:
  assumes "2 \<le> length p0" "length (gl_xs g) = length p0"
    and "\<forall>row\<in>set pdfs. length row = length p0" "m \<le> length pdfs"
  shows "solve_loop g [0..<m] (p0, pdfs) =
           Inr (euler_seq g p0 m, map (\<lambda>i. euler_seq g p0 (Suc i)) [0..<m] @ drop m pdfs)"
  using assms(4)
proof (induction m)
  case 0
  then show ?case by simp
next
  case (Suc m)
  define fin where "fin = map (\<lambda>i. euler_seq g p0 (Suc i)) [0..<m]"
  define nxt where "nxt = euler_seq g p0 (Suc m)"
  have m: "m < length pdfs" using Suc.prems by simp
  have lens: "length fin = m" "length nxt = length p0"
    unfolding fin_def nxt_def by (simp_all del: euler_seq.simps)
  have rest: "drop m pdfs = pdfs ! m # drop (Suc m) pdfs"
    using m by (simp add: Cons_nth_drop_Suc)
  have row: "length ((fin @ drop m pdfs) ! m) = length nxt"
    using m assms(3) lens by (simp add: nth_append)
  have upd: "(fin @ drop m pdfs)[m := nxt] = fin @ [nxt] @ drop (Suc m) pdfs"
    using lens rest by (simp add: list_update_append)
  have wr: "set_row (fin @ drop m pdfs) m nxt = Inr (fin @ [nxt] @ drop (Suc m) pdfs)"
    using set_row_ok [of m "fin @ drop m pdfs" nxt] m row lens unfolding upd by simp
  have before: "solve_loop g [0..<m] (p0, pdfs) = Inr (euler_seq g p0 m, fin @ drop m pdfs)"
    using Suc.IH m unfolding fin_def by simp
  have step: "euler g (euler_seq g p0 m) = Inr nxt"
    unfolding nxt_def by (rule euler_step [OF assms(1,2)])
  have "solve_loop g [0..<Suc m] (p0, pdfs) = Inr (nxt, fin @ [nxt] @ drop (Suc m) pdfs)"
    by (simp add: solve_loop_append before step wr del: euler_seq.simps)
  moreover have "map (\<lambda>i. euler_seq g p0 (Suc i)) [0..<Suc m] = fin @ [nxt]"
    unfolding fin_def nxt_def by (simp del: euler_seq.simps)
  ultimately show ?case unfolding nxt_def by (simp del: euler_seq.simps)
qed

lemma solve_fpk_run:
  assumes "2 \<le> gl_N g" "length (gl_xs g) = nat (gl_N g)" "length p0 = nat (gl_N g)"
    and "0 \<le> gl_T g"
  shows "solve_fpk g p0 = Inr (map (\<lambda>i. euler_seq g p0 (Suc i)) [0..<nat (gl_T g)])"
proof -
  let ?zeros = "replicate (nat (gl_T g)) (replicate (nat (gl_N g)) (0::real))"
  have "solve_loop g [0..<nat (gl_T g)] (p0, ?zeros) =
          Inr (euler_seq g p0 (nat (gl_T g)),
               map (\<lambda>i. euler_seq g p0 (Suc i)) [0..<nat (gl_T g)] @ drop (nat (gl_T g)) ?zeros)"
    using assms by (intro solve_loop_run) simp_all
  then show ?thesis using assms by (simp add: solve_fpk_def Let_def)
qed







subsection \<open>The notebook's own configuration\<close>

text \<open>
  The globals of the notebook (500 points on \<open>[-2, 6]\<close>, 10000 steps) satisfy the
  hypotheses used throughout: the grid has \<open>N \<ge> 2\<close> points and \<open>xs\<close> has length \<open>N\<close>.
\<close>

lemma notebook_globals_built:
  "\<exists>g. notebook_globals = Inr g \<and> gl_a g = -2 \<and> gl_b g = 1 \<and> gl_dt g = 2 / 100000
        \<and> gl_T g = 10000 \<and> gl_N g = 500 \<and> length (gl_xs g) = 500 \<and> gl_dx g = 8 / 499"
proof -
  have "(2::int) \<le> 500" by simp
  from grid_ok [OF this, of "-2" 6] show ?thesis
    by (simp add: notebook_globals_def)
qed

lemma notebook_run:
  "\<exists>g. notebook_globals = Inr g
        \<and> (\<forall>p0. length p0 = 500 \<longrightarrow>
              (\<exists>hist. solve_fpk g p0 = Inr hist \<and> length hist = 10000
                      \<and> hist ! 9999 = euler_seq g p0 10000))"
proof -
  obtain g where g: "notebook_globals = Inr g" "gl_T g = 10000" "gl_N g = 500"
      "length (gl_xs g) = 500"
    using notebook_globals_built by blast
  have "\<exists>hist. solve_fpk g p0 = Inr hist \<and> length hist = 10000
                \<and> hist ! 9999 = euler_seq g p0 10000" if len: "length p0 = 500" for p0
  proof -
    have "solve_fpk g p0 = Inr (map (\<lambda>i. euler_seq g p0 (Suc i)) [0..<nat (gl_T g)])"
      using g len by (intro solve_fpk_run) simp_all
    moreover have "map (\<lambda>i. euler_seq g p0 (Suc i)) [0..<10000] ! 9999 = euler_seq g p0 (Suc 9999)"
      by (simp del: euler_seq.simps)
    moreover have "Suc 9999 = 10000" by simp
    ultimately show ?thesis using g by (simp del: euler_seq.simps)
  qed
  then show ?thesis using g(1) by blast
qed

text \<open>
  Why the statements about the operator ask for a grid of at least two points: against a
  one-point \<^verbatim>\<open>xs\<close> numpy broadcasts, and a density of any length of two or more passes.
  The grid cell cannot produce such globals, since \<^verbatim>\<open>dx = xs[1] - xs[0]\<close> fails first.
\<close>

lemma single_point_grid_broadcasts:
  "fpk_operator (small_globals\<lparr>gl_xs := [5]\<rparr>) [1, 2, 3, 4] = Inr [23, 26, 29, 32]"
  by (simp add: small_globals_def fpk_operator_def gradient_def vmul_def vadd_def
      broadcast2_def smul_def vneg_def vsquare_def drift_def dispersion_def Let_def)

subsection \<open>The solver on the store\<close>

lemma take_longer_prefix:
  assumes "take (length (xs @ zs)) ys = xs @ zs"
  shows "take (length xs) ys = xs"
proof -
  have "take (length xs) ys = take (length xs) (take (length (xs @ zs)) ys)"
    by (simp add: min_def)
  then show ?thesis unfolding assms by simp
qed

lemma solve_loop_st_refines:
  assumes "ps < length (vecs w)" "pdfs < length (mats w)"
  shows "case solve_loop g ks (vecs w ! ps, mats w ! pdfs) of
           Inl e \<Rightarrow> solve_loop_st g pdfs ks (w, ps) = Inl e
         | Inr (v, m) \<Rightarrow>
             \<exists>w' ps'. solve_loop_st g pdfs ks (w, ps) = Inr (w', ps')
               \<and> ps' < length (vecs w') \<and> vecs w' ! ps' = v
               \<and> mats w' = (mats w)[pdfs := m]
               \<and> take (length (vecs w)) (vecs w') = vecs w
               \<and> rng w' = rng w"
  using assms
proof (induction ks arbitrary: w ps)
  case Nil
  then show ?case by simp
next
  case (Cons k ks)
  show ?case
  proof (cases "euler g (vecs w ! ps)")
    case (Inl e)
    then show ?thesis by (simp add: euler_st_def)
  next
    case (Inr v1)
    define w1 where "w1 = w\<lparr>vecs := vecs w @ [v1]\<rparr>"
    define p1 where "p1 = length (vecs w)"
    have e: "euler_st g w ps = Inr (w1, p1)"
      by (simp add: euler_st_def Inr new_vec_def w1_def p1_def)
    have w1: "vecs w1 ! p1 = v1" "mats w1 = mats w" "rng w1 = rng w" "p1 < length (vecs w1)"
      by (simp_all add: w1_def p1_def)
    show ?thesis
    proof (cases "set_row (mats w ! pdfs) k v1")
      case (Inl e')
      then show ?thesis using Inr e w1 by (simp add: set_row_st_def)
    next
      case row: (Inr m1)
      define w2 where "w2 = w1\<lparr>mats := (mats w1)[pdfs := m1]\<rparr>"
      have s: "set_row_st w1 pdfs k p1 = Inr w2"
        using row w1 by (simp add: set_row_st_def w2_def)
      have w2: "vecs w2 = vecs w @ [v1]" "mats w2 = (mats w)[pdfs := m1]" "rng w2 = rng w"
        by (simp_all add: w2_def w1_def)
      have valid: "p1 < length (vecs w2)" "pdfs < length (mats w2)"
        using Cons.prems by (simp_all add: w2 p1_def)
      have here: "vecs w2 ! p1 = v1" "mats w2 ! pdfs = m1"
        using Cons.prems by (simp_all add: w2 p1_def)
      have unfold_v: "solve_loop g (k # ks) (vecs w ! ps, mats w ! pdfs) = solve_loop g ks (v1, m1)"
        using Inr row by simp
      have unfold_s: "solve_loop_st g pdfs (k # ks) (w, ps) = solve_loop_st g pdfs ks (w2, p1)"
        using e s by simp
      show ?thesis
      proof (cases "solve_loop g ks (v1, m1)")
        case (Inl e'')
        then show ?thesis
          using Cons.IH [OF valid] unfolding unfold_v unfold_s here by simp
      next
        case fin: (Inr st)
        obtain v m where st: "st = (v, m)" by (cases st)
        obtain w' ps' where r: "solve_loop_st g pdfs ks (w2, p1) = Inr (w', ps')"
          "ps' < length (vecs w')" "vecs w' ! ps' = v" "mats w' = (mats w2)[pdfs := m]"
          "take (length (vecs w2)) (vecs w') = vecs w2" "rng w' = rng w2"
          using Cons.IH [OF valid] fin unfolding here st by auto
        have keep: "take (length (vecs w)) (vecs w') = vecs w"
          using r(5) unfolding w2 by (rule take_longer_prefix)
        show ?thesis
          unfolding unfold_v unfold_s fin st using r keep by (simp add: w2)
      qed
    qed
  qed
qed

lemma solve_fpk_st_refines:
  assumes "p0 < length (vecs w)"
  shows "case solve_fpk g (vecs w ! p0) of
           Inl e \<Rightarrow> solve_fpk_st g w p0 = Inl e
         | Inr h \<Rightarrow>
             \<exists>w'. solve_fpk_st g w p0 = Inr (w', length (mats w))
               \<and> mats w' = mats w @ [h]
               \<and> take (length (vecs w)) (vecs w') = vecs w
               \<and> rng w' = rng w"
proof (cases "gl_T g < 0 \<or> gl_N g < 0")
  case True
  then show ?thesis by (auto simp: solve_fpk_def solve_fpk_st_def)
next
  case False
  define zeros where "zeros = replicate (nat (gl_T g)) (replicate (nat (gl_N g)) (0::real))"
  define w2 where "w2 = w\<lparr>mats := mats w @ [zeros], vecs := vecs w @ [vecs w ! p0]\<rparr>"
  define pdfs where "pdfs = length (mats w)"
  define ps where "ps = length (vecs w)"
  have st: "solve_fpk_st g w p0 =
      and_then (solve_loop_st g pdfs [0..<nat (gl_T g)] (w2, ps)) (\<lambda>(w3, ps'). Inr (w3, pdfs))"
    using False assms
    by (simp add: solve_fpk_st_def new_mat_def new_vec_def Let_def zeros_def w2_def pdfs_def
        ps_def)
  have v: "solve_fpk g (vecs w ! p0) =
      and_then (solve_loop g [0..<nat (gl_T g)] (vecs w ! p0, zeros)) (\<lambda>(ps', pdfs'). Inr pdfs')"
    using False by (simp add: solve_fpk_def Let_def zeros_def)
  have valid: "ps < length (vecs w2)" "pdfs < length (mats w2)"
    by (simp_all add: w2_def ps_def pdfs_def)
  have here: "vecs w2 ! ps = vecs w ! p0" "mats w2 ! pdfs = zeros"
    by (simp_all add: w2_def ps_def pdfs_def)
  show ?thesis
  proof (cases "solve_loop g [0..<nat (gl_T g)] (vecs w ! p0, zeros)")
    case (Inl e)
    then show ?thesis
      using solve_loop_st_refines [OF valid, of g "[0..<nat (gl_T g)]"]
      unfolding here st v by simp
  next
    case (Inr s)
    obtain v' m where s: "s = (v', m)" by (cases s)
    obtain w' ps' where r: "solve_loop_st g pdfs [0..<nat (gl_T g)] (w2, ps) = Inr (w', ps')"
      "mats w' = (mats w2)[pdfs := m]" "take (length (vecs w2)) (vecs w') = vecs w2"
      "rng w' = rng w2"
      using solve_loop_st_refines [OF valid, of g "[0..<nat (gl_T g)]"] Inr
      unfolding here s by auto
    have w2: "vecs w2 = vecs w @ [vecs w ! p0]" "mats w2 = mats w @ [zeros]" "rng w2 = rng w"
      by (simp_all add: w2_def)
    have keep: "take (length (vecs w)) (vecs w') = vecs w"
      using r(3) unfolding w2 by (rule take_longer_prefix)
    have "mats w' = mats w @ [m]"
      using r(2) by (simp add: w2 pdfs_def)
    then show ?thesis
      unfolding st v Inr s using r(1,4) keep by (simp add: w2 pdfs_def)
  qed
qed


lemma history_of_solve_fpk_st:
  assumes "p0 < length (vecs w)"
  shows "history_of (solve_fpk_st g w p0) = solve_fpk g (vecs w ! p0)"
proof (cases "solve_fpk g (vecs w ! p0)")
  case (Inl e)
  then show ?thesis using solve_fpk_st_refines [OF assms, of g] by (simp add: history_of_def)
next
  case (Inr h)
  then obtain w' where "solve_fpk_st g w p0 = Inr (w', length (mats w))" "mats w' = mats w @ [h]"
    using solve_fpk_st_refines [OF assms, of g] by auto
  then show ?thesis using Inr by (simp add: history_of_def)
qed

text \<open>
  Claim C9. Two runs of the solver with the same globals (coefficients, step size, number
  of steps, grid) on initial densities with the same contents return the same outcome:
  the same error, or histories with identical contents. The two runs may start in
  different worlds: other arrays, other addresses, another state of the random generator.
  A run leaves the state of the random generator as it found it. (Equality is equality of
  real values; the model has no bit patterns.)
\<close>

theorem solve_fpk_st_deterministic:
  assumes "p1 < length (vecs w1)" "p2 < length (vecs w2)" "vecs w1 ! p1 = vecs w2 ! p2"
  shows "history_of (solve_fpk_st g w1 p1) = history_of (solve_fpk_st g w2 p2)
         \<and> (\<forall>w' pdfs. solve_fpk_st g w1 p1 = Inr (w', pdfs) \<longrightarrow> rng w' = rng w1)"
proof (intro conjI allI impI)
  show "history_of (solve_fpk_st g w1 p1) = history_of (solve_fpk_st g w2 p2)"
    using assms by (simp add: history_of_solve_fpk_st)
next
  fix w' pdfs
  assume run: "solve_fpk_st g w1 p1 = Inr (w', pdfs)"
  then show "rng w' = rng w1"
    using solve_fpk_st_refines [OF assms(1), of g]
    by (cases "solve_fpk g (vecs w1 ! p1)") auto
qed

lemma small_solve_st:
  "history_of (solve_fpk_st small_globals \<lparr>vecs = [[1, 2, 4]], mats = [], rng = 666\<rparr> 0) =
     Inr [[13 / 10, 129 / 40, 69 / 10], [169 / 100, 857 / 160, 2417 / 200]]"
  by (simp add: history_of_def solve_fpk_st_def new_mat_def new_vec_def euler_st_def
      set_row_st_def small_globals_def euler_def fpk_operator_def gradient_def
      vmul_def vadd_def broadcast2_def smul_def muls_def vneg_def vsquare_def drift_def
      dispersion_def set_row_def Let_def upt_rec numeral_nat and_then_def)

theorem solve_fpk_st_deterministic_witness:
  "0 < length (vecs \<lparr>vecs = [[1, 2, 4]], mats = [], rng = 666\<rparr>)
   \<and> 1 < length (vecs \<lparr>vecs = [[9, 9], [1, 2, 4]], mats = [[[5]]], rng = 7\<rparr>)
   \<and> vecs \<lparr>vecs = [[1, 2, 4]], mats = [], rng = 666\<rparr> ! 0
       = vecs \<lparr>vecs = [[9, 9], [1, 2, 4]], mats = [[[5]]], rng = 7\<rparr> ! 1
   \<and> history_of (solve_fpk_st small_globals \<lparr>vecs = [[1, 2, 4]], mats = [], rng = 666\<rparr> 0) =
       Inr [[13 / 10, 129 / 40, 69 / 10], [169 / 100, 857 / 160, 2417 / 200]]
   \<and> history_of (solve_fpk_st small_globals
         \<lparr>vecs = [[9, 9], [1, 2, 4]], mats = [[[5]]], rng = 7\<rparr> 1) =
       Inr [[13 / 10, 129 / 40, 69 / 10], [169 / 100, 857 / 160, 2417 / 200]]"
proof -
  have h: "0 < length (vecs \<lparr>vecs = [[1, 2, 4]], mats = [], rng = 666\<rparr>)"
    "1 < length (vecs \<lparr>vecs = [[9, 9], [1, 2, 4]], mats = [[[5]]], rng = 7\<rparr>)"
    "vecs \<lparr>vecs = [[1, 2, 4]], mats = [], rng = 666\<rparr> ! 0
       = vecs \<lparr>vecs = [[9, 9], [1, 2, 4]], mats = [[[5]]], rng = 7\<rparr> ! 1"
    by simp_all
  show ?thesis
    using solve_fpk_st_deterministic [OF h, of small_globals, THEN conjunct1] small_solve_st h
    by simp
qed

text \<open>
  Claim C10. Whenever a run of the solver on the array at address \<open>p0\<close> returns, that
  array has the contents it had before: \<^verbatim>\<open>p0.copy()\<close> allocates the working vector,
  each Euler step allocates a new one, and the only in-place write goes to the history
  array, which the run itself allocated. Every array that existed before the run is
  unchanged. For a positive \<open>T\<close> and an initial density of the grid's length the run does
  return, with the Euler iterates as the rows of the history.
\<close>

theorem solve_fpk_st_frame:
  assumes "p0 < length (vecs w)"
  shows "(\<forall>w' pdfs. solve_fpk_st g w p0 = Inr (w', pdfs) \<longrightarrow>
            vecs w' ! p0 = vecs w ! p0
            \<and> take (length (vecs w)) (vecs w') = vecs w
            \<and> take (length (mats w)) (mats w') = mats w
            \<and> pdfs = length (mats w))
         \<and> (0 < gl_T g \<and> 2 \<le> gl_N g \<and> length (gl_xs g) = nat (gl_N g)
              \<and> length (vecs w ! p0) = nat (gl_N g) \<longrightarrow>
            (\<exists>w' pdfs. solve_fpk_st g w p0 = Inr (w', pdfs)
               \<and> mats w' ! pdfs = map (\<lambda>i. euler_seq g (vecs w ! p0) (Suc i)) [0..<nat (gl_T g)]
               \<and> vecs w' ! p0 = vecs w ! p0))"
proof (intro conjI allI impI)
  fix w' pdfs
  assume run: "solve_fpk_st g w p0 = Inr (w', pdfs)"
  then obtain h where h: "solve_fpk g (vecs w ! p0) = Inr h"
    using solve_fpk_st_refines [OF assms, of g] by (cases "solve_fpk g (vecs w ! p0)") auto
  then have *: "pdfs = length (mats w)" "mats w' = mats w @ [h]"
    "take (length (vecs w)) (vecs w') = vecs w"
    using solve_fpk_st_refines [OF assms, of g] run by auto
  have "vecs w' ! p0 = take (length (vecs w)) (vecs w') ! p0"
    using assms by simp
  then show "vecs w' ! p0 = vecs w ! p0" using *(3) by simp
  show "take (length (vecs w)) (vecs w') = vecs w" using *(3) .
  show "take (length (mats w)) (mats w') = mats w" using *(2) by simp
  show "pdfs = length (mats w)" using *(1) .
next
  assume a: "0 < gl_T g \<and> 2 \<le> gl_N g \<and> length (gl_xs g) = nat (gl_N g)
              \<and> length (vecs w ! p0) = nat (gl_N g)"
  define h where "h = map (\<lambda>i. euler_seq g (vecs w ! p0) (Suc i)) [0..<nat (gl_T g)]"
  have "solve_fpk g (vecs w ! p0) = Inr h"
    unfolding h_def using a by (intro solve_fpk_run) simp_all
  then obtain w' where *: "solve_fpk_st g w p0 = Inr (w', length (mats w))"
    "mats w' = mats w @ [h]" "take (length (vecs w)) (vecs w') = vecs w"
    using solve_fpk_st_refines [OF assms, of g] by auto
  have "vecs w' ! p0 = take (length (vecs w)) (vecs w') ! p0"
    using assms by simp
  then have "vecs w' ! p0 = vecs w ! p0" using *(3) by simp
  moreover have "mats w' ! length (mats w) = h" using *(2) by simp
  ultimately show "\<exists>w' pdfs. solve_fpk_st g w p0 = Inr (w', pdfs)
               \<and> mats w' ! pdfs = map (\<lambda>i. euler_seq g (vecs w ! p0) (Suc i)) [0..<nat (gl_T g)]
               \<and> vecs w' ! p0 = vecs w ! p0"
    using *(1) unfolding h_def by blast
qed

lemma small_run_st:
  "solve_fpk_st small_globals \<lparr>vecs = [[1, 2, 4]], mats = [], rng = 666\<rparr> 0 =
     Inr (\<lparr>vecs = [[1, 2, 4], [1, 2, 4], [13 / 10, 129 / 40, 69 / 10],
                   [169 / 100, 857 / 160, 2417 / 200]],
           mats = [[[13 / 10, 129 / 40, 69 / 10], [169 / 100, 857 / 160, 2417 / 200]]],
           rng = 666\<rparr>, 0)"
  by (simp add: solve_fpk_st_def new_mat_def new_vec_def euler_st_def
      set_row_st_def small_globals_def euler_def fpk_operator_def gradient_def
      vmul_def vadd_def broadcast2_def smul_def muls_def vneg_def vsquare_def drift_def
      dispersion_def set_row_def Let_def upt_rec numeral_nat and_then_def)

theorem solve_fpk_st_frame_witness:
  "0 < length (vecs \<lparr>vecs = [[1, 2, 4]], mats = [], rng = 666\<rparr>)
   \<and> solve_fpk_st small_globals \<lparr>vecs = [[1, 2, 4]], mats = [], rng = 666\<rparr> 0 =
     Inr (\<lparr>vecs = [[1, 2, 4], [1, 2, 4], [13 / 10, 129 / 40, 69 / 10],
                   [169 / 100, 857 / 160, 2417 / 200]],
           mats = [[[13 / 10, 129 / 40, 69 / 10], [169 / 100, 857 / 160, 2417 / 200]]],
           rng = 666\<rparr>, 0)
   \<and> vecs \<lparr>vecs = [[1, 2, 4], [1, 2, 4], [13 / 10, 129 / 40, 69 / 10],
                   [169 / 100, 857 / 160, 2417 / 200]],
           mats = [[[13 / 10, 129 / 40, 69 / 10], [169 / 100, 857 / 160, 2417 / 200]]],
           rng = 666\<rparr> ! 0 = [1, 2, 4]
   \<and> 0 < gl_T small_globals \<and> 2 \<le> gl_N small_globals
   \<and> length (gl_xs small_globals) = nat (gl_N small_globals)
   \<and> length (vecs \<lparr>vecs = [[1, 2, 4]], mats = [], rng = 666\<rparr> ! 0) = nat (gl_N small_globals)"
proof -
  have h: "0 < length (vecs \<lparr>vecs = [[1, 2, 4]], mats = [], rng = 666\<rparr>)" by simp
  have wf: "0 < gl_T small_globals \<and> 2 \<le> gl_N small_globals
   \<and> length (gl_xs small_globals) = nat (gl_N small_globals)
   \<and> length (vecs \<lparr>vecs = [[1, 2, 4]], mats = [], rng = 666\<rparr> ! 0) = nat (gl_N small_globals)"
    by (simp add: small_globals_def)
  note fr = solve_fpk_st_frame [OF h, of small_globals, THEN conjunct1, rule_format,
      OF small_run_st]
  show ?thesis using fr small_run_st h wf by simp
qed

subsection \<open>float64: rounding\<close>

lemma pow2_powr: "pow2 k = 2 powr (of_int k)"
  by (simp add: pow2_def powr_real_of_int divide_inverse)

lemma pow2_pos [simp]: "0 < pow2 k"
  by (simp add: pow2_powr)

lemma pow2_nonneg [simp]: "0 \<le> pow2 k"
  using pow2_pos [of k] by linarith

lemma pow2_abs [simp]: "\<bar>pow2 k\<bar> = pow2 k"
  using pow2_pos [of k] by linarith

lemma pow2_neq0 [simp]: "pow2 k \<noteq> 0"
  using pow2_pos [of k] by linarith

lemma pow2_52: "pow2 52 = 2 ^ 52"
  by (simp add: pow2_def)

lemma pow2_add: "pow2 (a + b) = pow2 a * pow2 b"
  by (simp add: pow2_powr powr_add)

lemma pow2_mono: "a \<le> b \<Longrightarrow> pow2 a \<le> pow2 b"
  by (simp add: pow2_powr)

lemma pow2_nat: "pow2 (int n) = 2 ^ n"
  by (simp add: pow2_def)

lemma round_even_int [simp]: "round_even (of_int n) = n"
  by (simp add: round_even_def)

lemma round_even_ge: "\<lfloor>r\<rfloor> \<le> round_even r"
  by (simp add: round_even_def Let_def)

lemma bexp_bounds:
  assumes "x \<noteq> 0"
  shows "pow2 (bexp x) \<le> \<bar>x\<bar>" "\<bar>x\<bar> < pow2 (bexp x + 1)"
proof -
  have pos: "0 < \<bar>x\<bar>" using assms by simp
  have "\<lfloor>log 2 \<bar>x\<bar>\<rfloor> = bexp x" by (simp add: bexp_def)
  then have "2 powr (of_int (bexp x)) \<le> \<bar>x\<bar> \<and> \<bar>x\<bar> < 2 powr (of_int (bexp x + 1))"
    using floor_log_eq_powr_iff [of "\<bar>x\<bar>" 2 "bexp x"] pos by simp
  then show "pow2 (bexp x) \<le> \<bar>x\<bar>" "\<bar>x\<bar> < pow2 (bexp x + 1)"
    by (simp_all add: pow2_powr)
qed


lemma bexp_less:
  assumes "x \<noteq> 0" "\<bar>x\<bar> < pow2 k"
  shows "bexp x < k"
proof (rule ccontr)
  assume "\<not> bexp x < k"
  then have "pow2 k \<le> pow2 (bexp x)" by (simp add: pow2_mono)
  then show False using bexp_bounds(1) [OF assms(1)] assms(2) by linarith
qed

lemma rnd_zero [simp]: "rnd 0 = Fin 0"
  by (simp add: rnd_def)

text \<open>A value \<open>m \<cdot> 2\<^sup>e\<close> with a 53-bit \<open>m\<close> and an exponent in range is a float64 number: it rounds to itself.\<close>

lemma rnd_exact:
  assumes "\<bar>m\<bar> < 2 ^ 53" "- 1074 \<le> e" "e \<le> 971"
  shows "rnd (of_int m * pow2 e) = Fin (of_int m * pow2 e)"
proof (cases "m = 0")
  case True
  then show ?thesis by simp
next
  case False
  define x where "x = of_int m * pow2 e"
  have x0: "x \<noteq> 0" using False by (simp add: x_def)
  have "\<bar>x\<bar> = of_int \<bar>m\<bar> * pow2 e" by (simp add: x_def abs_mult)
  moreover have "real_of_int \<bar>m\<bar> < real_of_int (2 ^ 53)"
    using assms(1) by (simp only: of_int_less_iff)
  ultimately have lt: "\<bar>x\<bar> < pow2 53 * pow2 e"
    using pow2_pos [of e] by (simp add: pow2_def)
  then have "\<bar>x\<bar> < pow2 (53 + e)" by (simp add: pow2_add)
  then have be: "bexp x < 53 + e" using bexp_less [OF x0] by simp
  define k where "k = max (- 1074) (bexp x - 52)"
  have ke: "k \<le> e" using be assms(2) by (simp add: k_def)
  define d where "d = nat (e - k)"
  have d: "e = k + int d" using ke by (simp add: d_def)
  have "x / pow2 k = of_int m * pow2 (int d)"
    unfolding x_def d pow2_add by simp
  also have "\<dots> = of_int (m * 2 ^ d)" by (simp add: pow2_nat)
  finally have q: "x / pow2 k = of_int (m * 2 ^ d)" .
  have y: "of_int (round_even (x / pow2 k)) * pow2 k = x"
    unfolding q round_even_int using q by (simp add: field_simps)
  have "pow2 53 * pow2 e \<le> pow2 53 * pow2 971"
    using pow2_mono [OF assms(3)] by (intro mult_left_mono) simp_all
  then have "\<bar>x\<bar> < pow2 53 * pow2 971"
    using lt by linarith
  then have small: "\<not> pow2 1024 \<le> \<bar>x\<bar>"
    using pow2_add [of 53 971] by simp
  show ?thesis
    using x0 y small unfolding x_def [symmetric] rnd_def k_def [symmetric] Let_def by simp
qed

lemma rnd_int: "\<bar>m\<bar> < 2 ^ 53 \<Longrightarrow> rnd (of_int m) = Fin (of_int m)"
  using rnd_exact [of m 0] by (simp add: pow2_def)

text \<open>Overflow: what is at least \<open>2\<^sup>1\<^sup>0\<^sup>2\<^sup>4\<close> rounds to infinity.\<close>

lemma rnd_overflow:
  assumes "pow2 1024 \<le> x"
  shows "rnd x = PInf"
proof -
  have xpos: "0 < x" using assms pow2_pos [of 1024] by linarith
  define e where "e = bexp x"
  have e: "pow2 e \<le> x" "x < pow2 (e + 1)"
    using bexp_bounds [of x] xpos by (simp_all add: e_def)
  have "pow2 1024 < pow2 (e + 1)" using assms e(2) by linarith
  then have e1024: "1024 \<le> e"
    by (metis pow2_mono not_less zle_add1_eq_le linorder_not_le)
  define k where "k = max (- 1074) (e - 52)"
  have k: "k = e - 52" using e1024 by (simp add: k_def)
  define q where "q = pow2 k"
  have qpos: "0 < q" by (simp add: q_def)
  have split: "pow2 e = pow2 52 * q" using pow2_add [of 52 k] by (simp add: k q_def)
  have "pow2 52 * q \<le> x" using e(1) split by simp
  then have "pow2 52 \<le> x / q" using qpos by (simp add: field_simps)
  then have "(2::real) ^ 52 \<le> x / q" by (simp add: pow2_52)
  then have "(2::int) ^ 52 \<le> \<lfloor>x / q\<rfloor>"
    by (metis le_floor_iff of_int_numeral of_int_power)
  then have "(2::int) ^ 52 \<le> round_even (x / q)"
    using round_even_ge [of "x / q"] by linarith
  then have "(2::real) ^ 52 \<le> of_int (round_even (x / q))"
    by (metis of_int_le_iff of_int_numeral of_int_power)
  then have "pow2 52 \<le> of_int (round_even (x / q))" by (simp add: pow2_52)
  then have "pow2 52 * q \<le> of_int (round_even (x / q)) * q"
    using qpos by (simp add: mult_right_mono)
  then have "pow2 e \<le> of_int (round_even (x / q)) * q"
    using split by simp
  moreover have "pow2 1024 \<le> pow2 e" using e1024 by (rule pow2_mono)
  ultimately have "pow2 1024 \<le> \<bar>of_int (round_even (x / q)) * q\<bar>"
    by linarith
  then show ?thesis
    using xpos unfolding rnd_def e_def [symmetric] k_def [symmetric] q_def [symmetric] Let_def
    by simp
qed



lemma rnd_one [simp]: "rnd 1 = Fin 1"
  using rnd_int [of 1] by simp

lemma rnd_numeral [simp]:
  "(numeral w :: int) < 2 ^ 53 \<Longrightarrow> rnd (numeral w) = Fin (numeral w)"
  using rnd_int [of "numeral w"] by simp

lemma rnd_neg_numeral [simp]:
  "(numeral w :: int) < 2 ^ 53 \<Longrightarrow> rnd (- numeral w) = Fin (- numeral w)"
  using rnd_int [of "- numeral w"] by simp

lemma rnd_of_nat: "n < 2 ^ 53 \<Longrightarrow> rnd (real n) = Fin (real n)"
  using rnd_int [of "int n"] by simp


subsection \<open>float64: arithmetic on zero\<close>

lemma fsub_zero [simp]: "fsub (Fin 0) (Fin 0) = Fin 0"
  by (simp add: fsub_def)

lemma fadd_zero [simp]: "fadd (Fin 0) (Fin 0) = Fin 0"
  by simp

lemma fneg_zero: "fneg (Fin 0) = Fin 0"
  by simp

lemma fmul_fin_zero [simp]: "is_fin c \<Longrightarrow> fmul c (Fin 0) = Fin 0"
  by (cases c) simp_all

lemma fmul_zero_fin [simp]: "is_fin c \<Longrightarrow> fmul (Fin 0) c = Fin 0"
  by (cases c) simp_all

lemma fdiv_zero: "d \<noteq> Fin 0 \<Longrightarrow> d \<noteq> NaN \<Longrightarrow> fdiv (Fin 0) d = Fin 0"
  by (cases d) simp_all

subsection \<open>float64: shapes and failures of the operator and the solver\<close>

lemma gradient_f64_short: "length f < 2 \<Longrightarrow> gradient_f64 f h = Inl ValueError"
  by (simp add: gradient_f64_def)

lemma gradient_f64_ok:
  assumes "2 \<le> length f"
  obtains out where "gradient_f64 f h = Inr out" "length out = length f"
proof -
  let ?out = "[fdiv (fsub (f ! 1) (f ! 0)) h]
      @ map2 (\<lambda>u v. fdiv (fsub u v) (fmul (Fin 2) h)) (drop 2 f) (take (length f - 2) f)
      @ [fdiv (fsub (f ! (length f - 1)) (f ! (length f - 2))) h]"
  have "gradient_f64 f h = Inr ?out" using assms by (simp add: gradient_f64_def Let_def)
  moreover have "length ?out = length f" using assms by simp
  ultimately show ?thesis using that by blast
qed

lemma fpk_operator_f64_overflow:
  assumes "py_pow2 (fl_b g) = Inl e"
  shows "fpk_operator_f64 g ps = Inl e"
  using assms by (simp add: fpk_operator_f64_def Let_def)

lemma py_pow2_error: "py_pow2 b = Inl e \<Longrightarrow> e = OverflowError"
  by (cases b) (auto split: f64.splits)

lemma fpk_operator_f64_ok:
  assumes "py_pow2 (fl_b g) = Inr b2" "2 \<le> length ps" "length (fl_xs g) = length ps"
  obtains out where "fpk_operator_f64 g ps = Inr out" "length out = length ps"
proof -
  obtain p' where p': "gradient_f64 ps (fl_dx g) = Inr p'" "length p' = length ps"
    using gradient_f64_ok [OF assms(2)] by blast
  then have "2 \<le> length p'" using assms(2) by simp
  then obtain p'' where p'': "gradient_f64 p' (fl_dx g) = Inr p''" "length p'' = length p'"
    using gradient_f64_ok by blast
  have "\<exists>out. fpk_operator_f64 g ps = Inr out \<and> length out = length ps"
    using assms p'(2) p''(2)
    by (simp add: fpk_operator_f64_def Let_def p'(1) p''(1) broadcast2_same drift_f64_def
        dispersion_f64_def)
  then show ?thesis using that by blast
qed

lemma fpk_operator_f64_mismatch:
  assumes "py_pow2 (fl_b g) = Inr b2" "2 \<le> length (fl_xs g)" "length ps \<noteq> length (fl_xs g)"
  shows "fpk_operator_f64 g ps = Inl ValueError"
proof (cases "length ps < 2")
  case True
  then show ?thesis using assms(1) by (simp add: fpk_operator_f64_def Let_def gradient_f64_short)
next
  case False
  then have two: "2 \<le> length ps" by simp
  obtain p' where p': "gradient_f64 ps (fl_dx g) = Inr p'" "length p' = length ps"
    using gradient_f64_ok [OF two] by blast
  then have "2 \<le> length p'" using two by simp
  then obtain p'' where p'': "gradient_f64 p' (fl_dx g) = Inr p''"
    using gradient_f64_ok by blast
  have "broadcast2 fmul (drift_f64 g (fl_xs g)) p' = Inl ValueError"
    using assms(2,3) two p'(2)
    by (intro broadcast2_mismatch) (simp_all add: drift_f64_def)
  then show ?thesis
    using assms(1) by (simp add: fpk_operator_f64_def Let_def p'(1) p'')
qed

lemma euler_f64_ok:
  assumes "py_pow2 (fl_b g) = Inr b2" "2 \<le> length ps" "length (fl_xs g) = length ps"
  obtains out where "euler_f64 g ps = Inr out" "length out = length ps"
proof -
  obtain l where l: "fpk_operator_f64 g ps = Inr l" "length l = length ps"
    using fpk_operator_f64_ok [OF assms] by blast
  then have "\<exists>out. euler_f64 g ps = Inr out \<and> length out = length ps"
    by (simp add: euler_f64_def broadcast2_same)
  then show ?thesis using that by blast
qed

lemma solve_loop_f64_append:
  "solve_loop_f64 g (ks @ ks') st =
     (case solve_loop_f64 g ks st of Inl e \<Rightarrow> Inl e | Inr st' \<Rightarrow> solve_loop_f64 g ks' st')"
proof (induction ks arbitrary: st)
  case Nil
  then show ?case by (cases st) simp
next
  case (Cons k ks)
  then show ?case by (cases st) (simp split: sum.splits)
qed

lemma solve_loop_f64_run:
  assumes "py_pow2 (fl_b g) = Inr b2" "2 \<le> length p0" "length (fl_xs g) = length p0"
    and "\<forall>row\<in>set pdfs. length row = length p0" "m \<le> length pdfs"
  shows "\<exists>hist. solve_loop_f64 g [0..<m] (p0, pdfs) = Inr (last (p0 # hist), hist @ drop m pdfs)
           \<and> length hist = m \<and> (\<forall>row\<in>set hist. length row = length p0)
           \<and> (\<forall>k<m. euler_f64 g ((p0 # hist) ! k) = Inr (hist ! k))"
  using assms(5)
proof (induction m)
  case 0
  then show ?case by simp
next
  case (Suc m)
  then obtain hist where h:
    "solve_loop_f64 g [0..<m] (p0, pdfs) = Inr (last (p0 # hist), hist @ drop m pdfs)"
    "length hist = m" "\<forall>row\<in>set hist. length row = length p0"
    "\<forall>k<m. euler_f64 g ((p0 # hist) ! k) = Inr (hist ! k)"
    by auto
  define ps where "ps = last (p0 # hist)"
  have lps: "length ps = length p0" using h(3) by (auto simp: ps_def)
  obtain nxt where nxt: "euler_f64 g ps = Inr nxt" "length nxt = length ps"
    using euler_f64_ok [OF assms(1), of ps] assms(2,3) lps by auto
  have m: "m < length pdfs" using Suc.prems by simp
  have rest: "drop m pdfs = pdfs ! m # drop (Suc m) pdfs"
    using m by (simp add: Cons_nth_drop_Suc)
  have row: "length ((hist @ drop m pdfs) ! m) = length nxt"
    using m assms(4) h(2) nxt(2) lps by (simp add: nth_append)
  have upd: "(hist @ drop m pdfs)[m := nxt] = (hist @ [nxt]) @ drop (Suc m) pdfs"
    using h(2) rest by (simp add: list_update_append)
  have wr: "set_row (hist @ drop m pdfs) m nxt = Inr ((hist @ [nxt]) @ drop (Suc m) pdfs)"
    using set_row_ok [of m "hist @ drop m pdfs" nxt] m row h(2) unfolding upd by simp
  have run: "solve_loop_f64 g [0..<Suc m] (p0, pdfs) =
               Inr (last (p0 # hist @ [nxt]), (hist @ [nxt]) @ drop (Suc m) pdfs)"
    using h(1) nxt(1) wr by (simp add: solve_loop_f64_append ps_def)
  have "(p0 # hist @ [nxt]) ! m = ((p0 # hist) @ [nxt]) ! m" by simp
  also have "\<dots> = (p0 # hist) ! m" using h(2) by (simp only: nth_append length_Cons) simp
  also have "\<dots> = last (p0 # hist)"
    using h(2) last_conv_nth [of "p0 # hist"] by simp
  finally have prev: "(p0 # hist @ [nxt]) ! m = ps" by (simp add: ps_def)
  have steps: "\<forall>k<Suc m. euler_f64 g ((p0 # hist @ [nxt]) ! k) = Inr ((hist @ [nxt]) ! k)"
  proof (intro allI impI)
    fix k assume "k < Suc m"
    then consider "k < m" | "k = m" by linarith
    then show "euler_f64 g ((p0 # hist @ [nxt]) ! k) = Inr ((hist @ [nxt]) ! k)"
    proof cases
      case 1
      have "(p0 # hist @ [nxt]) ! k = ((p0 # hist) @ [nxt]) ! k" by simp
      also have "\<dots> = (p0 # hist) ! k"
        using 1 h(2) by (simp only: nth_append length_Cons) simp
      finally have "(p0 # hist @ [nxt]) ! k = (p0 # hist) ! k" .
      moreover have "(hist @ [nxt]) ! k = hist ! k" using 1 h(2) by (simp add: nth_append)
      ultimately show ?thesis using h(4) 1 by simp
    next
      case 2
      then show ?thesis using prev nxt(1) h(2) by (simp add: nth_append)
    qed
  qed
  show ?case
    using run h(2,3) nxt(2) lps steps
    by (intro exI [of _ "hist @ [nxt]"]) auto
qed


subsection \<open>float64: propagation of NaN\<close>

lemma fadd_NaN_right [simp]: "fadd a NaN = NaN"
  by (cases a) simp_all

lemma fmul_NaN_right [simp]: "fmul a NaN = NaN"
  by (cases a) simp_all

lemma fdiv_NaN_right [simp]: "fdiv a NaN = NaN"
  by (cases a) simp_all

lemma fsub_NaN [simp]: "fsub a NaN = NaN" "fsub NaN b = NaN"
  by (simp_all add: fsub_def)

subsection \<open>float64: Python's power\<close>

lemma py_pow2_one [simp]: "py_pow2 (Fin 1) = Inr (Fin 1)"
  by simp

lemma py_pow2_huge: "py_pow2 (Fin huge) = Inl OverflowError"
proof -
  have "pow2 1024 \<le> huge * huge" by (simp add: pow2_def huge_def)
  then have "rnd (huge * huge) = PInf" by (rule rnd_overflow)
  then show ?thesis by simp
qed

lemma huge_is_float64: "rnd huge = Fin huge"
  using rnd_exact [of 1 600] by (simp add: pow2_def huge_def)

text \<open>
  Claim C7, as amended. With a grid of at least two points: if \<^verbatim>\<open>b ** 2\<close> overflows,
  Python raises \<^verbatim>\<open>OverflowError\<close> for every density vector; otherwise
  \<^verbatim>\<open>fpk_operator\<close> fails if and only if the length of the density vector differs from
  the grid's, with numpy's \<^verbatim>\<open>ValueError\<close>, and never fails for a vector of the right
  length, whatever its values (NaN and infinities included). The claim as stated is
  refuted by a coefficient whose square overflows (a failure on a vector of the right
  length) and by a one-point grid (no failure on a vector of another length).
\<close>

theorem fpk_operator_f64_failure:
  assumes "2 \<le> length (fl_xs g)"
  shows "(isl (py_pow2 (fl_b g)) \<longrightarrow> fpk_operator_f64 g ps = Inl OverflowError)
         \<and> (\<not> isl (py_pow2 (fl_b g)) \<longrightarrow>
              (fpk_operator_f64 g ps = Inl ValueError \<longleftrightarrow> length ps \<noteq> length (fl_xs g))
              \<and> (isl (fpk_operator_f64 g ps) \<longleftrightarrow> length ps \<noteq> length (fl_xs g)))"
proof (intro conjI impI)
  assume "isl (py_pow2 (fl_b g))"
  then obtain e where e: "py_pow2 (fl_b g) = Inl e" by (cases "py_pow2 (fl_b g)") auto
  then have "e = OverflowError" by (rule py_pow2_error)
  then show "fpk_operator_f64 g ps = Inl OverflowError"
    using fpk_operator_f64_overflow [OF e] by simp
next
  assume "\<not> isl (py_pow2 (fl_b g))"
  then obtain b2 where b2: "py_pow2 (fl_b g) = Inr b2" by (cases "py_pow2 (fl_b g)") auto
  show "fpk_operator_f64 g ps = Inl ValueError \<longleftrightarrow> length ps \<noteq> length (fl_xs g)"
  proof (cases "length ps = length (fl_xs g)")
    case True
    then have "2 \<le> length ps" "length (fl_xs g) = length ps" using assms by simp_all
    then obtain out where "fpk_operator_f64 g ps = Inr out"
      using fpk_operator_f64_ok [OF b2] by blast
    then show ?thesis using True by simp
  next
    case False
    then show ?thesis using fpk_operator_f64_mismatch [OF b2 assms] by simp
  qed
  show "isl (fpk_operator_f64 g ps) \<longleftrightarrow> length ps \<noteq> length (fl_xs g)"
  proof (cases "length ps = length (fl_xs g)")
    case True
    then have "2 \<le> length ps" "length (fl_xs g) = length ps" using assms by simp_all
    then obtain out where "fpk_operator_f64 g ps = Inr out"
      using fpk_operator_f64_ok [OF b2] by blast
    then show ?thesis using True by simp
  next
    case False
    then show ?thesis using fpk_operator_f64_mismatch [OF b2 assms] by simp
  qed
qed

theorem fpk_operator_f64_failure_witness:
  "2 \<le> length (fl_xs small_globals_f64)
   \<and> \<not> isl (py_pow2 (fl_b small_globals_f64))
   \<and> fpk_operator_f64 small_globals_f64 [Fin 1, Fin 2] = Inl ValueError
   \<and> fpk_operator_f64 small_globals_f64 [Fin 1, NaN, PInf, Fin 8] = Inl ValueError
   \<and> \<not> isl (fpk_operator_f64 small_globals_f64 [NaN, PInf, Fin 4])
   \<and> 2 \<le> length (fl_xs (small_globals_f64\<lparr>fl_b := Fin huge\<rparr>))
   \<and> isl (py_pow2 (fl_b (small_globals_f64\<lparr>fl_b := Fin huge\<rparr>)))
   \<and> fpk_operator_f64 (small_globals_f64\<lparr>fl_b := Fin huge\<rparr>) [Fin 1, Fin 2, Fin 4]
       = Inl OverflowError"
proof -
  have h: "2 \<le> length (fl_xs small_globals_f64)" by (simp add: small_globals_f64_def)
  have ok: "\<not> isl (py_pow2 (fl_b small_globals_f64))" by (simp add: small_globals_f64_def)
  have h': "2 \<le> length (fl_xs (small_globals_f64\<lparr>fl_b := Fin huge\<rparr>))"
    by (simp add: small_globals_f64_def)
  have bad: "isl (py_pow2 (fl_b (small_globals_f64\<lparr>fl_b := Fin huge\<rparr>)))"
    by (simp add: py_pow2_huge del: py_pow2.simps)
  show ?thesis
    using fpk_operator_f64_failure [OF h, of "[Fin 1, Fin 2]"]
      fpk_operator_f64_failure [OF h, of "[Fin 1, NaN, PInf, Fin 8]"]
      fpk_operator_f64_failure [OF h, of "[NaN, PInf, Fin 4]"]
      fpk_operator_f64_failure [OF h', of "[Fin 1, Fin 2, Fin 4]"] h h' ok bad
    by (simp add: small_globals_f64_def del: py_pow2.simps)
qed

theorem fpk_operator_failure_counterexample:
  "length [Fin 1, Fin 2, Fin 4] = length (fl_xs (small_globals_f64\<lparr>fl_b := Fin huge\<rparr>))
   \<and> fpk_operator_f64 (small_globals_f64\<lparr>fl_b := Fin huge\<rparr>) [Fin 1, Fin 2, Fin 4]
       = Inl OverflowError
   \<and> length [Fin 1, Fin 2, Fin 3, Fin 4] \<noteq> length (fl_xs (small_globals_f64\<lparr>fl_xs := [Fin 5]\<rparr>))
   \<and> fpk_operator_f64 (small_globals_f64\<lparr>fl_xs := [Fin 5]\<rparr>) [Fin 1, Fin 2, Fin 3, Fin 4]
       = Inr [Fin 23, Fin 26, Fin 29, Fin 32]"
proof -
  have "fpk_operator_f64 (small_globals_f64\<lparr>fl_b := Fin huge\<rparr>) [Fin 1, Fin 2, Fin 4]
          = Inl OverflowError"
    by (rule fpk_operator_f64_overflow) (simp add: py_pow2_huge del: py_pow2.simps)
  moreover have "fpk_operator_f64 (small_globals_f64\<lparr>fl_xs := [Fin 5]\<rparr>)
                    [Fin 1, Fin 2, Fin 3, Fin 4] = Inr [Fin 23, Fin 26, Fin 29, Fin 32]"
    by (simp add: small_globals_f64_def fpk_operator_f64_def gradient_f64_def broadcast2_def
        drift_f64_def dispersion_f64_def fsub_def Let_def)
  ultimately show ?thesis by (simp add: small_globals_f64_def)
qed


subsection \<open>float64: the solver\<close>

text \<open>
  Claim C8, as amended. Provided \<^verbatim>\<open>b ** 2\<close> does not overflow (a property of the
  coefficient, not of the density), for a grid \<open>xs\<close> of \<open>N \<ge> 2\<close> points, every initial
  density of length \<open>N\<close> with float64 entries of any kind (finite, infinite or NaN), every
  step size and every positive \<open>T\<close>, the solver completes all \<open>T\<close> steps and returns a
  history of exactly \<open>T\<close> rows of \<open>N\<close> entries, each row being the Euler step of the one
  before it (the first of \<open>p0\<close>). If \<^verbatim>\<open>b ** 2\<close> overflows, the first step raises
  \<^verbatim>\<open>OverflowError\<close>, which refutes the claim as stated.
\<close>

theorem solve_fpk_f64_unconditional:
  assumes "2 \<le> fl_N g" "length (fl_xs g) = nat (fl_N g)" "length p0 = nat (fl_N g)"
    and "0 < fl_T g" "\<not> isl (py_pow2 (fl_b g))"
  shows "\<exists>hist. solve_fpk_f64 g p0 = Inr hist \<and> length hist = nat (fl_T g)
           \<and> (\<forall>row\<in>set hist. length row = nat (fl_N g))
           \<and> (\<forall>k<nat (fl_T g). euler_f64 g ((p0 # hist) ! k) = Inr (hist ! k))"
proof -
  obtain b2 where b2: "py_pow2 (fl_b g) = Inr b2"
    using assms(5) by (cases "py_pow2 (fl_b g)") auto
  let ?zeros = "replicate (nat (fl_T g)) (replicate (nat (fl_N g)) (Fin 0))"
  have "\<exists>hist. solve_loop_f64 g [0..<nat (fl_T g)] (p0, ?zeros) =
            Inr (last (p0 # hist), hist @ drop (nat (fl_T g)) ?zeros)
          \<and> length hist = nat (fl_T g) \<and> (\<forall>row\<in>set hist. length row = length p0)
          \<and> (\<forall>k<nat (fl_T g). euler_f64 g ((p0 # hist) ! k) = Inr (hist ! k))"
    using assms(1-4) by (intro solve_loop_f64_run [OF b2]) simp_all
  then obtain hist where h:
    "solve_loop_f64 g [0..<nat (fl_T g)] (p0, ?zeros) =
       Inr (last (p0 # hist), hist @ drop (nat (fl_T g)) ?zeros)"
    "length hist = nat (fl_T g)" "\<forall>row\<in>set hist. length row = length p0"
    "\<forall>k<nat (fl_T g). euler_f64 g ((p0 # hist) ! k) = Inr (hist ! k)"
    by blast
  have "solve_fpk_f64 g p0 = Inr hist"
    using assms(1,4) h(1) by (simp add: solve_fpk_f64_def Let_def)
  then show ?thesis using h(2,3,4) assms(3) by auto
qed

lemma small_nonfinite_run:
  "solve_fpk_f64 small_globals_f64 [NaN, PInf, Fin 4] = Inr [[NaN, NaN, NaN], [NaN, NaN, NaN]]"
  by (simp add: small_globals_f64_def solve_fpk_f64_def euler_f64_def fpk_operator_f64_def
      gradient_f64_def broadcast2_def drift_f64_def dispersion_f64_def fsub_def set_row_def
      inf_of_def Let_def upt_rec numeral_nat)

theorem solve_fpk_f64_unconditional_witness:
  "2 \<le> fl_N small_globals_f64 \<and> length (fl_xs small_globals_f64) = nat (fl_N small_globals_f64)
   \<and> length [NaN, PInf, Fin 4] = nat (fl_N small_globals_f64) \<and> 0 < fl_T small_globals_f64
   \<and> \<not> isl (py_pow2 (fl_b small_globals_f64))
   \<and> solve_fpk_f64 small_globals_f64 [NaN, PInf, Fin 4] = Inr [[NaN, NaN, NaN], [NaN, NaN, NaN]]
   \<and> euler_f64 small_globals_f64 [NaN, PInf, Fin 4] = Inr [NaN, NaN, NaN]
   \<and> euler_f64 small_globals_f64 [NaN, NaN, NaN] = Inr [NaN, NaN, NaN]"
proof -
  have h: "2 \<le> fl_N small_globals_f64"
      "length (fl_xs small_globals_f64) = nat (fl_N small_globals_f64)"
      "length [NaN, PInf, Fin 4] = nat (fl_N small_globals_f64)" "0 < fl_T small_globals_f64"
      "\<not> isl (py_pow2 (fl_b small_globals_f64))"
    by (simp_all add: small_globals_f64_def)
  obtain hist where hist: "solve_fpk_f64 small_globals_f64 [NaN, PInf, Fin 4] = Inr hist"
    and steps: "\<forall>k<nat (fl_T small_globals_f64).
        euler_f64 small_globals_f64 (([NaN, PInf, Fin 4] # hist) ! k) = Inr (hist ! k)"
    using solve_fpk_f64_unconditional [OF h] by blast
  have eq: "hist = [[NaN, NaN, NaN], [NaN, NaN, NaN]]" using hist small_nonfinite_run by simp
  have t: "nat (fl_T small_globals_f64) = 2" by (simp add: small_globals_f64_def)
  have "euler_f64 small_globals_f64 [NaN, PInf, Fin 4] = Inr [NaN, NaN, NaN]"
    using steps [rule_format, of 0] unfolding eq t by simp
  moreover have "euler_f64 small_globals_f64 [NaN, NaN, NaN] = Inr [NaN, NaN, NaN]"
    using steps [rule_format, of 1] unfolding eq t by simp
  ultimately show ?thesis using h hist unfolding eq by simp
qed

theorem solve_fpk_unconditional_counterexample:
  "length [Fin 1, Fin 2, Fin 4] = nat (fl_N (small_globals_f64\<lparr>fl_b := Fin huge\<rparr>))
   \<and> 0 < fl_T (small_globals_f64\<lparr>fl_b := Fin huge\<rparr>)
   \<and> is_fin (fl_dt (small_globals_f64\<lparr>fl_b := Fin huge\<rparr>))
   \<and> solve_fpk_f64 (small_globals_f64\<lparr>fl_b := Fin huge\<rparr>) [Fin 1, Fin 2, Fin 4]
       = Inl OverflowError"
proof -
  have "fpk_operator_f64 (small_globals_f64\<lparr>fl_b := Fin huge\<rparr>) [Fin 1, Fin 2, Fin 4]
          = Inl OverflowError"
    by (rule fpk_operator_f64_overflow) (simp add: py_pow2_huge del: py_pow2.simps)
  then have "euler_f64 (small_globals_f64\<lparr>fl_b := Fin huge\<rparr>) [Fin 1, Fin 2, Fin 4]
          = Inl OverflowError"
    by (simp add: euler_f64_def)
  then have "solve_fpk_f64 (small_globals_f64\<lparr>fl_b := Fin huge\<rparr>) [Fin 1, Fin 2, Fin 4]
       = Inl OverflowError"
    by (simp add: solve_fpk_f64_def small_globals_f64_def upt_rec numeral_nat)
  then show ?thesis by (simp add: small_globals_f64_def)
qed


subsection \<open>float64: the operator on the zero density\<close>

lemma ends_replicate: "2 \<le> n \<Longrightarrow> [c] @ replicate (n - 2) c @ [c] = replicate n c"
  by (auto intro!: nth_equalityI simp: nth_append nth_Cons')

lemma gradient_f64_zero:
  assumes "2 \<le> n" "h \<noteq> Fin 0" "h \<noteq> NaN" "fmul (Fin 2) h \<noteq> Fin 0" "fmul (Fin 2) h \<noteq> NaN"
  shows "gradient_f64 (replicate n (Fin 0)) h = Inr (replicate n (Fin 0))"
proof -
  have "gradient_f64 (replicate n (Fin 0)) h =
          Inr ([Fin 0] @ replicate (n - 2) (Fin 0) @ [Fin 0])"
    using assms by (simp add: gradient_f64_def Let_def fdiv_zero map_replicate_const)
  then show ?thesis using ends_replicate [OF assms(1)] by simp
qed

lemma fmul_list_zero:
  assumes "length c = n" "list_all is_fin c"
  shows "map2 fmul c (replicate n (Fin 0)) = replicate n (Fin 0)"
  using assms by (auto intro!: nth_equalityI simp: list_all_length)

text \<open>
  Claim C4, as amended. When the coefficient values the operator forms (\<open>a\<close>, \<open>a x\<close>,
  \<open>2 b\<^sup>2\<close>, \<open>2 (2 b\<^sup>2 x)\<close>, \<open>(b x)\<^sup>2\<close>) are finite float64 numbers and the spacings it
  divides by (\<open>dx\<close>, \<open>2 dx\<close>) are neither zero nor NaN, the operator maps the all-zero
  density of the grid's length to the all-zero vector. Outside these conditions the
  claim fails: a zero spacing gives \<open>0 / 0 = NaN\<close>, an overflowing \<open>2 b\<^sup>2\<close> or
  \<open>a x\<close> gives \<open>inf \<cdot> 0 = NaN\<close>.
\<close>

theorem fpk_operator_f64_zero:
  assumes "length (fl_xs g) = n" "2 \<le> n" "spacing_usable g" "coefficients_finite g"
  shows "fpk_operator_f64 g (replicate n (Fin 0)) = Inr (replicate n (Fin 0))"
proof -
  obtain b2 where b2: "py_pow2 (fl_b g) = Inr b2"
    using assms(4) by (cases "py_pow2 (fl_b g)") (auto simp: coefficients_finite_def)
  have fin: "is_fin (fl_a g)" "list_all is_fin (drift_f64 g (fl_xs g))"
    "is_fin (fmul (Fin 2) b2)"
    "list_all is_fin (map (fmul (Fin 2)) (map (fmul (fmul (Fin 2) b2)) (fl_xs g)))"
    "list_all is_fin (map (\<lambda>x. fmul x x) (dispersion_f64 g (fl_xs g)))"
    using assms(4) b2 by (simp_all add: coefficients_finite_def)
  define z where "z = replicate n (Fin 0)"
  have lz: "length z = n" by (simp add: z_def)
  have grad: "gradient_f64 z (fl_dx g) = Inr z"
    unfolding z_def using assms(2,3) by (intro gradient_f64_zero) (simp_all add: spacing_usable_def)
  have m1: "map2 fmul (drift_f64 g (fl_xs g)) z = z"
    unfolding z_def using fin(2) assms(1) by (intro fmul_list_zero) (simp_all add: drift_f64_def)
  have m2: "map2 fmul (map (fmul (Fin 2)) (map (fmul (fmul (Fin 2) b2)) (fl_xs g))) z = z"
    unfolding z_def using fin(4) assms(1) by (intro fmul_list_zero) simp_all
  have m3: "map2 fmul (map (\<lambda>x. fmul x x) (dispersion_f64 g (fl_xs g))) z = z"
    unfolding z_def using fin(5) assms(1)
    by (intro fmul_list_zero) (simp_all add: dispersion_f64_def)
  have s1: "map (fmul (fl_a g)) z = z" using fin(1) by (simp add: z_def)
  have s2: "map (fmul (fmul (Fin 2) b2)) z = z" using fin(3) by (simp add: z_def)
  have add: "map2 fadd z z = z" by (simp add: z_def map_replicate_const)
  have neg: "map fneg z = z" by (simp add: z_def)
  have half: "map (fmul (Fin (1 / 2))) z = z" by (simp add: z_def)
  have len: "length (drift_f64 g (fl_xs g)) = length z" "length (fl_xs g) = length z"
    "length (dispersion_f64 g (fl_xs g)) = length z"
    using assms(1) lz by (simp_all add: drift_f64_def dispersion_f64_def)
  have "fpk_operator_f64 g z = Inr z"
    unfolding fpk_operator_f64_def Let_def
    by (simp add: b2 grad broadcast2_same len m1 m2 m3 s1 s2 add neg half del: map_map)
  then show ?thesis by (simp add: z_def)
qed

lemma small_coefficients: "coefficients_finite small_globals_f64" "spacing_usable small_globals_f64"
  by (simp_all add: coefficients_finite_def spacing_usable_def small_globals_f64_def
      drift_f64_def dispersion_f64_def)

theorem fpk_operator_f64_zero_witness:
  "length (fl_xs small_globals_f64) = 3 \<and> (2::nat) \<le> 3 \<and> spacing_usable small_globals_f64
   \<and> coefficients_finite small_globals_f64
   \<and> fpk_operator_f64 small_globals_f64 [Fin 0, Fin 0, Fin 0] = Inr [Fin 0, Fin 0, Fin 0]"
proof -
  have h: "length (fl_xs small_globals_f64) = 3" "(2::nat) \<le> 3"
    by (simp_all add: small_globals_f64_def)
  have "replicate 3 (Fin 0) = [Fin 0, Fin 0, Fin 0]" by (simp add: numeral_3_eq_3)
  then show ?thesis
    using fpk_operator_f64_zero [OF h small_coefficients(2,1)] h small_coefficients by simp
qed

lemma rnd_half [simp]: "rnd (1 / 2) = Fin (1 / 2)"
  using rnd_exact [of 1 "- 1"] by (simp add: pow2_def)

lemma rnd_large:
  "rnd (large * large) = Fin (large * large)"
  "rnd (2 * (large * large)) = PInf"
proof -
  have "rnd (of_int (9 * 2 ^ 49) * pow2 971) = Fin (of_int (9 * 2 ^ 49) * pow2 971)"
    by (rule rnd_exact) simp_all
  moreover have "of_int (9 * 2 ^ 49) * pow2 971 = large * large"
    by (simp add: pow2_def large_def)
  ultimately show "rnd (large * large) = Fin (large * large)"
    by simp
  have "pow2 1024 \<le> 2 * (large * large)" by (simp add: pow2_def large_def)
  then show "rnd (2 * (large * large)) = PInf" by (rule rnd_overflow)
qed

lemma rnd_big_exact: "rnd big = Fin big"
  using rnd_exact [of "2 ^ 52" 971] by (simp add: pow2_def big_def)

lemma rnd_big_twice: "rnd (big * 2) = PInf"
proof -
  have "pow2 1024 \<le> big * 2" by (simp add: pow2_def big_def)
  then show ?thesis by (rule rnd_overflow)
qed

lemma rnd_large_exact: "rnd large = Fin large"
  using rnd_exact [of 3 510] by (simp add: pow2_def large_def)

theorem fpk_operator_zero_counterexample:
  "grid_f64 (Fin 1) (Fin 1) 3 = Inr ([Fin 1, Fin 1, Fin 1], Fin 0)
   \<and> fpk_operator_f64 (small_globals_f64\<lparr>fl_xs := [Fin 1, Fin 1, Fin 1], fl_dx := Fin 0\<rparr>)
         [Fin 0, Fin 0, Fin 0] = Inr [NaN, NaN, NaN]
   \<and> fpk_operator_f64 (small_globals_f64\<lparr>fl_b := Fin large\<rparr>) [Fin 0, Fin 0, Fin 0]
       = Inr [NaN, NaN, NaN]
   \<and> fpk_operator_f64 (small_globals_f64\<lparr>fl_a := Fin big\<rparr>) [Fin 0, Fin 0, Fin 0]
       = Inr [Fin 0, Fin 0, NaN]"
proof (intro conjI)
  show "fpk_operator_f64 (small_globals_f64\<lparr>fl_a := Fin big\<rparr>) [Fin 0, Fin 0, Fin 0]
       = Inr [Fin 0, Fin 0, NaN]"
    by (simp add: small_globals_f64_def fpk_operator_f64_def gradient_f64_def broadcast2_def
        drift_f64_def dispersion_f64_def fsub_def Let_def rnd_big_exact rnd_big_twice)
  show "grid_f64 (Fin 1) (Fin 1) 3 = Inr ([Fin 1, Fin 1, Fin 1], Fin 0)"
    by (simp add: grid_f64_def linspace_f64_def fsub_def Let_def upt_rec numeral_nat)
  show "fpk_operator_f64 (small_globals_f64\<lparr>fl_xs := [Fin 1, Fin 1, Fin 1], fl_dx := Fin 0\<rparr>)
         [Fin 0, Fin 0, Fin 0] = Inr [NaN, NaN, NaN]"
    by (simp add: small_globals_f64_def fpk_operator_f64_def gradient_f64_def broadcast2_def
        drift_f64_def dispersion_f64_def fsub_def Let_def)
  show "fpk_operator_f64 (small_globals_f64\<lparr>fl_b := Fin large\<rparr>) [Fin 0, Fin 0, Fin 0]
       = Inr [NaN, NaN, NaN]"
    by (simp add: small_globals_f64_def fpk_operator_f64_def gradient_f64_def broadcast2_def
        drift_f64_def dispersion_f64_def fsub_def Let_def rnd_large)
qed

subsection \<open>float64: the grid\<close>











end
